theory Spec2Isabelle
  imports Complex_Main "HOL-Library.Sublist"
begin

section \<open>Strings and JavaScript values\<close>

text \<open>
  JavaScript strings are modelled as \<open>string\<close>.  \<open>s.includes(t)\<close> holds when \<open>t\<close>
  occurs in \<open>s\<close> as a contiguous block, \<open>s.endsWith(t)\<close> when \<open>t\<close> is a suffix of \<open>s\<close>.
\<close>

definition includes_str :: "string \<Rightarrow> string \<Rightarrow> bool" where
  "includes_str s t = sublist t s"

definition endsWith :: "string \<Rightarrow> string \<Rightarrow> bool" where
  "endsWith s t = suffix t s"

text \<open>
  Template literals print a number in decimal: \<open>`Column${index + 1}`\<close>.  The numbers
  printed here count array elements, so they are whole and far below \<open>2^53\<close>.
\<close>

definition digit_char :: "nat \<Rightarrow> char" where
  "digit_char d = ''0123456789'' ! d"

fun nat_to_string :: "nat \<Rightarrow> string" where
  "nat_to_string n =
     (if n < 10 then [digit_char n] else nat_to_string (n div 10) @ [digit_char (n mod 10)])"

declare nat_to_string.simps [simp del]

text \<open>
  The values that occur as spreadsheet cells and as properties of row objects.  A number
  is represented by the string JavaScript prints for it (\<open>Number.prototype.toString\<close>,
  which gives different numbers different strings, the two zeros apart): the program
  never calculates with a cell, it only tests it for truth, uses it as a property name
  and hands it on.  \<open>Inherited n\<close> is what reading the property \<open>n\<close> gives on an object
  that has no such property of its own when \<open>Object.prototype\<close> has one: a function, or
  \<open>Object.prototype\<close> itself for \<open>__proto__\<close>.

  \<open>truthy\<close> is JavaScript's truthiness, \<open>or_else a b\<close> is \<open>a || b\<close>, and \<open>to_key\<close> is the
  conversion of a value to a property name.
\<close>

datatype cell = Undefined | Str string | Num string | Boolean bool | Inherited string

fun truthy :: "cell \<Rightarrow> bool" where
  "truthy Undefined = False"
| "truthy (Str s) = (s \<noteq> [])"
| "truthy (Num n) = (n \<noteq> ''0'' \<and> n \<noteq> ''NaN'')"
| "truthy (Boolean b) = b"
| "truthy (Inherited n) = True"

definition or_else :: "cell \<Rightarrow> cell \<Rightarrow> cell" where
  "or_else a b = (if truthy a then a else b)"

fun to_key :: "cell \<Rightarrow> string" where
  "to_key Undefined = ''undefined''"
| "to_key (Str s) = s"
| "to_key (Num n) = n"
| "to_key (Boolean b) = (if b then ''true'' else ''false'')"
| "to_key (Inherited n) =
     (if n = ''__proto__'' then ''[object Object]'' else ''function '' @ n @ ''() { [native code] }'')"

text \<open>
  An array can have holes: \<open>sheet_to_json\<close> with \<open>header: 1\<close> leaves one for every empty
  cell.  An element of such an array is \<open>None\<close> for a hole and \<open>Some v\<close> for a value.
  Reading an element, \<open>row[colIndex]\<close>, gives \<open>undefined\<close> at a hole and past the end.
\<close>

definition elem_at :: "cell option list \<Rightarrow> nat \<Rightarrow> cell" where
  "elem_at xs i = (if i < length xs then (case xs ! i of None \<Rightarrow> Undefined | Some v \<Rightarrow> v) else Undefined)"

text \<open>
  The elements of an array of objects: a hole, the value \<open>undefined\<close>, or an object.
  \<open>map\<close> and \<open>forEach\<close> pass over holes; spreading an array, \<open>[...prev, x]\<close>, turns its
  holes into \<open>undefined\<close>.
\<close>

datatype 'a slot = Hole | Undef | Item 'a

fun items :: "'a slot list \<Rightarrow> 'a list" where
  "items [] = []"
| "items (Item a # xs) = a # items xs"
| "items (_ # xs) = items xs"

definition spread :: "'a slot list \<Rightarrow> 'a slot list" where
  "spread xs = map (\<lambda>s. case s of Hole \<Rightarrow> Undef | _ \<Rightarrow> s) xs"

text \<open>
  Objects are finite maps from property names to values.  \<open>obj[k] = v\<close> stores \<open>v\<close> under
  \<open>k\<close>, except that for \<open>__proto__\<close> on an object without such a property of its own it
  calls the setter of \<open>Object.prototype\<close>, which does nothing when \<open>v\<close> is not an object;
  the values stored here never are.  A property written in an object literal,
  \<open>{...row, [k]: v}\<close>, is always stored.  Reading a property that the object does not
  have gives what \<open>Object.prototype\<close> has under that name, and \<open>undefined\<close> otherwise.
\<close>

type_synonym row = "string \<rightharpoonup> cell"

definition prototype_names :: "string list" where
  "prototype_names =
     [''__proto__'', ''constructor'', ''hasOwnProperty'', ''isPrototypeOf'',
      ''propertyIsEnumerable'', ''toLocaleString'', ''toString'', ''valueOf'',
      ''__defineGetter__'', ''__defineSetter__'', ''__lookupGetter__'', ''__lookupSetter__'']"

definition assign :: "row \<Rightarrow> string \<Rightarrow> cell \<Rightarrow> row" where
  "assign obj k v = (if k = ''__proto__'' \<and> obj k = None then obj else obj(k \<mapsto> v))"

definition read :: "row \<Rightarrow> string \<Rightarrow> cell" where
  "read obj k =
     (case obj k of
        Some v \<Rightarrow> v
      | None \<Rightarrow> if k \<in> set prototype_names then Inherited k else Undefined)"

section \<open>Numbers\<close>

text \<open>
  Coordinates, scales and angles are IEEE 754 doubles.  A double is the real number it
  stands for, and every arithmetic operation of the source gives the exact result
  rounded to the nearest double, ties to the even significand: \<open>fl\<close>.  In the normal
  range a double has 53 significant bits; below \<open>2^-1022\<close> they are the multiples of
  \<open>2^-1074\<close>.  Numbers beyond the largest double do not occur.
\<close>

definition round_even :: "real \<Rightarrow> int" where
  "round_even t =
     (let f = \<lfloor>t\<rfloor>; d = t - of_int f in
      if d < 1 / 2 then f else if 1 / 2 < d then f + 1 else if even f then f else f + 1)"

definition ulp_exponent :: "real \<Rightarrow> int" where
  "ulp_exponent x = max (\<lfloor>log 2 \<bar>x\<bar>\<rfloor> - 52) (- 1074)"

definition fl :: "real \<Rightarrow> real" where
  "fl x =
     (if x = 0 then 0
      else of_int (round_even (x / 2 powr of_int (ulp_exponent x))) * 2 powr of_int (ulp_exponent x))"

section \<open>FileViewer: choosing the editor and the viewer\<close>

text \<open>
  \<open>renderEditor\<close> and \<open>renderViewer\<close> of the FileViewer component each pick one of
  four renderings from \<open>file.type\<close> and \<open>file.name\<close>.  The chains of \<open>if\<close> statements
  are kept in the order of the source.
\<close>

datatype strategy = PaginatedDoc | Grid | Scene | PlainText

definition renderEditor :: "string \<Rightarrow> string \<Rightarrow> strategy" where
  "renderEditor ftype fname =
     (if includes_str ftype ''pdf'' then PaginatedDoc
      else if includes_str ftype ''sheet'' \<or> includes_str ftype ''excel''
              \<or> endsWith fname ''.xlsx'' \<or> endsWith fname ''.xls'' \<or> endsWith fname ''.csv''
        then Grid
      else if includes_str ftype ''image'' then Scene
      else PlainText)"

definition renderViewer :: "string \<Rightarrow> string \<Rightarrow> strategy" where
  "renderViewer ftype fname =
     (if includes_str ftype ''image'' then Scene
      else if includes_str ftype ''pdf'' then PaginatedDoc
      else if includes_str ftype ''sheet'' \<or> includes_str ftype ''excel'' \<or> endsWith fname ''.csv''
        then Grid
      else PlainText)"

section \<open>ExcelEditor: the grid\<close>

text \<open>
  A row is an object holding the row's \<open>id\<close> next to one property per column key.  A
  column descriptor carries the key under which its cells are stored and the name that is
  displayed and exported.  The \<open>columns\<close> of the editor are an array of descriptors, which
  can have holes.
\<close>

record column =
  key :: cell
  name :: cell
  editable :: bool
  resizable :: bool

record grid =
  data :: "row list"
  columns :: "column slot list"
  worksheetName :: string

definition initial_grid :: grid where
  "initial_grid = \<lparr>data = [], columns = [], worksheetName = ''Sheet1''\<rparr>"

text \<open>\<open>row[col.key]\<close>.\<close>

definition get_prop :: "row \<Rightarrow> cell \<Rightarrow> cell" where
  "get_prop r k = read r (to_key k)"

text \<open>
  \<open>createEmptySpreadsheet\<close>: five columns \<open>Column1\<close> .. \<open>Column5\<close> (displayed as
  \<open>Column 1\<close> .. \<open>Column 5\<close>) and ten rows of empty strings.
\<close>

definition defaultColumns :: "column list" where
  "defaultColumns =
     map (\<lambda>i. \<lparr>key = Str (''Column'' @ nat_to_string (i + 1)),
               name = Str (''Column '' @ nat_to_string (i + 1)),
               editable = True, resizable = True\<rparr>) [0..<5]"

definition defaultRows :: "row list" where
  "defaultRows =
     map (\<lambda>i. fold (\<lambda>col row. assign row (to_key (key col)) (Str '''')) defaultColumns
                [''id'' \<mapsto> Num (nat_to_string i)]) [0..<10]"

definition createEmptySpreadsheet :: "grid \<Rightarrow> grid" where
  "createEmptySpreadsheet g = g\<lparr>columns := map Item defaultColumns, data := defaultRows\<rparr>"

text \<open>
  \<open>loadExcelData\<close>.  Everything up to \<open>sheet_to_json\<close> is the work of \<open>fetch\<close> and of the
  XLSX library, so the function below starts from what they deliver: either an exception
  somewhere inside the \<open>try\<close> block (\<open>LoadFailed\<close>, with the sheet name if
  \<open>setWorksheetName\<close> had already run), or the first sheet's name and its array of rows
  (\<open>Loaded\<close>), each row an array with a hole for every empty cell.  An empty array
  leaves columns and data as they were.  \<open>headers.map\<close> and \<open>headers.forEach\<close> pass over
  the holes of the header row: such a column gets no descriptor and its cells are not
  stored.
\<close>

datatype load_result = LoadFailed "string option" | Loaded string "cell option list list"

definition header_key :: "cell \<Rightarrow> nat \<Rightarrow> cell" where
  "header_key header index = or_else header (Str (''Column'' @ nat_to_string (index + 1)))"

definition header_name :: "cell \<Rightarrow> nat \<Rightarrow> cell" where
  "header_name header index = or_else header (Str (''Column '' @ nat_to_string (index + 1)))"

definition cols :: "cell option list \<Rightarrow> column slot list" where
  "cols headers =
     map (\<lambda>(index, h).
            case h of
              None \<Rightarrow> Hole
            | Some header \<Rightarrow>
                Item \<lparr>key = header_key header index, name = header_name header index,
                      editable = True, resizable = True\<rparr>)
         (enumerate 0 headers)"

definition rowObj :: "cell option list \<Rightarrow> cell option list \<Rightarrow> nat \<Rightarrow> row" where
  "rowObj headers row rowIndex =
     fold (\<lambda>(colIndex, h) obj.
             case h of
               None \<Rightarrow> obj
             | Some header \<Rightarrow>
                 assign obj (to_key (header_key header colIndex))
                   (or_else (elem_at row colIndex) (Str '''')))
          (enumerate 0 headers)
          [''id'' \<mapsto> Num (nat_to_string rowIndex)]"

definition rowsData :: "cell option list \<Rightarrow> cell option list list \<Rightarrow> row list" where
  "rowsData headers rows =
     map (\<lambda>(rowIndex, row). rowObj headers row rowIndex) (enumerate 0 rows)"

definition loadExcelData :: "load_result \<Rightarrow> grid \<Rightarrow> grid" where
  "loadExcelData res g =
     (case res of
        LoadFailed nm \<Rightarrow>
          createEmptySpreadsheet (case nm of None \<Rightarrow> g | Some n \<Rightarrow> g\<lparr>worksheetName := n\<rparr>)
      | Loaded firstSheetName jsonData \<Rightarrow>
          (case jsonData of
             [] \<Rightarrow> g\<lparr>worksheetName := firstSheetName\<rparr>
           | headers # rows \<Rightarrow>
               g\<lparr>worksheetName := firstSheetName,
                 columns := cols headers,
                 data := rowsData headers rows\<rparr>))"

text \<open>
  \<open>addRow\<close>, \<open>addColumn\<close>, \<open>deleteRow\<close> and the grid's \<open>onRowsChange\<close>.  In \<open>addRow\<close> the
  \<open>forEach\<close> reads \<open>col.key\<close>: on an element that is \<open>undefined\<close> this throws, the handler
  ends there and the state stays as it was.  \<open>addColumn\<close> spreads the previous columns.
\<close>

definition addRow :: "grid \<Rightarrow> grid" where
  "addRow g =
     (if Undef \<in> set (columns g) then g
      else
        (let newRow = fold (\<lambda>col r. assign r (to_key (key col)) (Str '''')) (items (columns g))
                           [''id'' \<mapsto> Num (nat_to_string (length (data g)))]
         in g\<lparr>data := data g @ [newRow]\<rparr>))"

definition newColumnKey :: "grid \<Rightarrow> string" where
  "newColumnKey g = ''Column'' @ nat_to_string (length (columns g) + 1)"

definition newColumn :: "grid \<Rightarrow> column" where
  "newColumn g =
     \<lparr>key = Str (newColumnKey g),
      name = Str (''Column '' @ nat_to_string (length (columns g) + 1)),
      editable = True, resizable = True\<rparr>"

definition addColumn :: "grid \<Rightarrow> grid" where
  "addColumn g =
     g\<lparr>columns := spread (columns g) @ [Item (newColumn g)],
       data := map (\<lambda>row. row(newColumnKey g \<mapsto> Str '''')) (data g)\<rparr>"

definition deleteRow :: "nat \<Rightarrow> grid \<Rightarrow> grid" where
  "deleteRow rowIndex g =
     g\<lparr>data := map snd (filter (\<lambda>(index, _). index \<noteq> rowIndex) (enumerate 0 (data g)))\<rparr>"

definition handleRowsChange :: "row list \<Rightarrow> grid \<Rightarrow> grid" where
  "handleRowsChange rows g = g\<lparr>data := rows\<rparr>"

text \<open>
  \<open>handleSave\<close> of the ExcelEditor builds the array of arrays \<open>wsData\<close> that is handed to
  \<open>XLSX.utils.aoa_to_sheet\<close>: the column names, then one array per row in column order,
  each with a hole where the columns have one.  Reading \<open>col.name\<close> of an element that is
  \<open>undefined\<close> throws; the \<open>catch\<close> logs it and nothing is saved (\<open>None\<close>).
\<close>

definition wsData :: "grid \<Rightarrow> cell option list list option" where
  "wsData g =
     (if Undef \<in> set (columns g) then None
      else Some
        (map (\<lambda>s. case s of Item col \<Rightarrow> Some (name col) | _ \<Rightarrow> None) (columns g)
         # map (\<lambda>row. map (\<lambda>s. case s of
                                   Item col \<Rightarrow> Some (or_else (get_prop row (key col)) (Str ''''))
                                 | _ \<Rightarrow> None) (columns g))
               (data g)))"

text \<open>
  What is compared across a save and a reload: the names of the columns there are, and
  the text of every cell, row by row in column order.
\<close>

definition header_names :: "grid \<Rightarrow> cell list" where
  "header_names g = map name (items (columns g))"

definition cell_text :: "grid \<Rightarrow> cell list list" where
  "cell_text g = map (\<lambda>row. map (\<lambda>col. get_prop row (key col)) (items (columns g))) (data g)"

text \<open>
  Saving and opening again.  The XLSX writer and reader are not part of this program:
  \<open>xlsx\<close> stands for what \<open>sheet_to_json\<close> reads from the file that \<open>XLSX.write\<close> made
  of the array of arrays.  The editor that reloads is freshly mounted.  When the save
  threw there is no new file.
\<close>

definition reload ::
  "(cell option list list \<Rightarrow> cell option list list) \<Rightarrow> grid \<Rightarrow> grid option" where
  "reload xlsx g =
     (case wsData g of
        None \<Rightarrow> None
      | Some ws \<Rightarrow> Some (loadExcelData (Loaded (worksheetName g) (xlsx ws)) initial_grid))"

text \<open>
  The assignments \<open>rowObj[...] = ...\<close> that the \<open>forEach\<close> of \<open>loadExcelData\<close> makes for one
  row, in order: the property name and the value stored under it.
\<close>

definition assignments :: "cell option list \<Rightarrow> cell option list \<Rightarrow> (string \<times> cell) list" where
  "assignments headers row =
     concat (map (\<lambda>(colIndex, h).
                    case h of
                      None \<Rightarrow> []
                    | Some header \<Rightarrow>
                        [(to_key (header_key header colIndex),
                          or_else (elem_at row colIndex) (Str ''''))])
                 (enumerate 0 headers))"

section \<open>App: the uploaded files and their object URLs\<close>

text \<open>
  The browser hands out object URLs: \<open>URL.createObjectURL\<close> returns a URL that was never
  returned before, \<open>URL.revokeObjectURL\<close> releases one.  The registry keeps the calls in
  the order in which they were made.
\<close>

type_synonym blob = "nat list"
type_synonym url = nat

datatype url_event = Created url blob | Revoked url

record registry =
  next_url :: nat
  url_log :: "url_event list"

definition createObjectURL :: "blob \<Rightarrow> registry \<Rightarrow> url \<times> registry" where
  "createObjectURL b r =
     (next_url r, \<lparr>next_url = Suc (next_url r), url_log = url_log r @ [Created (next_url r) b]\<rparr>)"

definition revokeObjectURL :: "url \<Rightarrow> registry \<Rightarrow> registry" where
  "revokeObjectURL u r = r\<lparr>url_log := url_log r @ [Revoked u]\<rparr>"

fun created_of :: "url_event \<Rightarrow> url list" where
  "created_of (Created u b) = [u]"
| "created_of (Revoked u) = []"

fun revoked_of :: "url_event \<Rightarrow> url list" where
  "revoked_of (Created u b) = []"
| "revoked_of (Revoked u) = [u]"

definition created :: "registry \<Rightarrow> url list" where
  "created r = concat (map created_of (url_log r))"

definition revoked :: "registry \<Rightarrow> url list" where
  "revoked r = concat (map revoked_of (url_log r))"

definition live :: "registry \<Rightarrow> url \<Rightarrow> bool" where
  "live r u = (u \<in> set (created r) \<and> u \<notin> set (revoked r))"

text \<open>\<open>fetch(url)\<close>: the bytes behind a URL, as long as it has not been revoked.\<close>

definition fetch :: "registry \<Rightarrow> url \<Rightarrow> blob option" where
  "fetch r u =
     fold (\<lambda>e found. case e of
                        Created v b \<Rightarrow> if v = u then Some b else found
                      | Revoked v \<Rightarrow> if v = u then None else found)
          (url_log r) None"

record uploaded_file =
  file_id :: string
  file_name :: string
  file_type :: string
  file_size :: nat
  url :: url
  content :: string

record app =
  uploadedFiles :: "uploaded_file list"
  selectedFile :: "uploaded_file option"
  reg :: registry

definition initial_app :: app where
  "initial_app = \<lparr>uploadedFiles = [], selectedFile = None, reg = \<lparr>next_url = 0, url_log = []\<rparr>\<rparr>"

text \<open>
  \<open>handleFileUpload\<close>.  A dropped file arrives with its name, type and bytes; \<open>up_text\<close> is
  what \<open>file.text()\<close> resolves to (\<open>None\<close> when it rejects) and \<open>up_now\<close> is the value of
  \<open>Date.now()\<close> when the file's record is built.
\<close>

record upload =
  up_name :: string
  up_type :: string
  up_blob :: blob
  up_text :: "string option"
  up_now :: nat

definition read_content :: "upload \<Rightarrow> string" where
  "read_content f =
     (if includes_str (up_type f) ''text'' \<or> endsWith (up_name f) ''.csv''
      then (case up_text f of Some t \<Rightarrow> t | None \<Rightarrow> '''')
      else '''')"

fun newFiles :: "nat \<Rightarrow> upload list \<Rightarrow> registry \<Rightarrow> uploaded_file list \<times> registry" where
  "newFiles i [] r = ([], r)"
| "newFiles i (f # fs) r =
     (let (u, r1) = createObjectURL (up_blob f) r;
          new = \<lparr>file_id = nat_to_string (up_now f) @ ''-'' @ nat_to_string i,
                 file_name = up_name f, file_type = up_type f,
                 file_size = length (up_blob f), url = u, content = read_content f\<rparr>;
          (rest, r2) = newFiles (Suc i) fs r1
      in (new # rest, r2))"

definition handleFileUpload :: "upload list \<Rightarrow> app \<Rightarrow> app" where
  "handleFileUpload files a =
     (let (new, r) = newFiles 0 files (reg a)
      in a\<lparr>uploadedFiles := uploadedFiles a @ new, reg := r\<rparr>)"

definition handleFileSelect :: "uploaded_file \<Rightarrow> app \<Rightarrow> app" where
  "handleFileSelect f a = a\<lparr>selectedFile := Some f\<rparr>"

definition handleFileDelete :: "string \<Rightarrow> app \<Rightarrow> app" where
  "handleFileDelete i a =
     a\<lparr>reg := (case find (\<lambda>f. file_id f = i) (uploadedFiles a) of
                 Some fileToDelete \<Rightarrow> revokeObjectURL (url fileToDelete) (reg a)
               | None \<Rightarrow> reg a),
       uploadedFiles := filter (\<lambda>f. file_id f \<noteq> i) (uploadedFiles a),
       selectedFile := (if map_option file_id (selectedFile a) = Some i then None
                        else selectedFile a)\<rparr>"

text \<open>
  \<open>handleFileUpdate\<close> is created anew at every render and holds the \<open>selectedFile\<close> of
  that render (\<open>rendered\<close>); the updaters it passes to \<open>setUploadedFiles\<close> and
  \<open>setSelectedFile\<close> work on the state at the time of the call.  The two agree when the
  call comes from the render that is on screen, and can differ when a save that was
  started earlier settles.
\<close>

definition handleFileUpdate :: "uploaded_file option \<Rightarrow> string \<Rightarrow> blob \<Rightarrow> app \<Rightarrow> app" where
  "handleFileUpdate rendered i updatedFile a =
     (let (newUrl, r1) = createObjectURL updatedFile (reg a);
          r2 = fold (\<lambda>f r. if file_id f = i then revokeObjectURL (url f) r else r)
                    (uploadedFiles a) r1;
          files = map (\<lambda>f. if file_id f = i
                            then f\<lparr>url := newUrl, file_size := length updatedFile\<rparr> else f)
                      (uploadedFiles a);
          sel = (if map_option file_id rendered = Some i
                 then map_option (\<lambda>prev. prev\<lparr>url := newUrl, file_size := length updatedFile\<rparr>)
                        (selectedFile a)
                 else selectedFile a)
      in a\<lparr>uploadedFiles := files, selectedFile := sel, reg := r2\<rparr>)"

definition handleCloseViewer :: "app \<Rightarrow> app" where
  "handleCloseViewer a = a\<lparr>selectedFile := None\<rparr>"

text \<open>
  The operations a user can drive from the sidebar and the viewer.  \<open>Select n\<close> is a click
  on the \<open>n\<close>-th entry of the list; \<open>Delete\<close> and \<open>Update\<close> carry any id.  \<open>Update\<close> is a
  save that settles in the render in which it was started; \<open>LateUpdate\<close> is one that
  settles later and carries the selection of the render that started it.
\<close>

datatype store_op =
  Upload "upload list" | Select nat | Delete string | Update string blob | Close
| LateUpdate "uploaded_file option" string blob

fun store_step :: "store_op \<Rightarrow> app \<Rightarrow> app" where
  "store_step (Upload files) a = handleFileUpload files a"
| "store_step (Select n) a =
     (if n < length (uploadedFiles a) then handleFileSelect (uploadedFiles a ! n) a else a)"
| "store_step (Delete i) a = handleFileDelete i a"
| "store_step (Update i b) a = handleFileUpdate (selectedFile a) i b a"
| "store_step Close a = handleCloseViewer a"
| "store_step (LateUpdate rendered i b) a = handleFileUpdate rendered i b a"

definition store_run :: "store_op list \<Rightarrow> app \<Rightarrow> app" where
  "store_run ops a = fold store_step ops a"

text \<open>
  The ids a batch of uploads will be given, and the condition that an operation brings
  no id that is already in use: ids come from the clock, so this is a condition on the
  clock values of the uploads.
\<close>

definition upload_ids :: "upload list \<Rightarrow> app \<Rightarrow> string list" where
  "upload_ids files a = map file_id (fst (newFiles 0 files (reg a)))"

fun new_ids_ok :: "store_op \<Rightarrow> app \<Rightarrow> bool" where
  "new_ids_ok (Upload files) a =
     (distinct (upload_ids files a)
      \<and> (\<forall>i \<in> set (upload_ids files a). i \<notin> set (map file_id (uploadedFiles a))))"
| "new_ids_ok _ a = True"

fun ids_fresh :: "store_op list \<Rightarrow> app \<Rightarrow> bool" where
  "ids_fresh [] a = True"
| "ids_fresh (op # ops) a = (new_ids_ok op a \<and> ids_fresh ops (store_step op a))"

text \<open>
  The handles of the store are in order when no two records share an id or a URL, the URL
  of every record is live, no URL was revoked twice and none that was not handed out, and
  the URLs handed out are below the next one.  The selection is in order when it is a copy
  of a record of the list.
\<close>

definition handles_ok :: "app \<Rightarrow> bool" where
  "handles_ok a =
     (distinct (map file_id (uploadedFiles a))
      \<and> distinct (map url (uploadedFiles a))
      \<and> (\<forall>f \<in> set (uploadedFiles a). live (reg a) (url f))
      \<and> distinct (revoked (reg a))
      \<and> (\<forall>u \<in> set (revoked (reg a)). u \<in> set (created (reg a)))
      \<and> (\<forall>u \<in> set (created (reg a)). u < next_url (reg a)))"

definition selection_ok :: "app \<Rightarrow> bool" where
  "selection_ok a = (case selectedFile a of None \<Rightarrow> True | Some s \<Rightarrow> s \<in> set (uploadedFiles a))"

text \<open>The calls a single \<open>handleFileUpdate\<close> adds to the registry's log, in order.\<close>

definition update_calls :: "string \<Rightarrow> blob \<Rightarrow> app \<Rightarrow> url_event list" where
  "update_calls i b a =
     drop (length (url_log (reg a))) (url_log (reg (handleFileUpdate (selectedFile a) i b a)))"

section \<open>FileViewer: view and edit mode\<close>

record viewer =
  isEditing :: bool
  editedContent :: string

text \<open>
  The handlers of the FileViewer act on the pair of the App's state and the viewer's own
  state; they exist only while a file is selected.  \<open>handleSave\<close> is the handler of the
  plain-text editor.  \<open>handleFileSave\<close> is the \<open>onSave\<close> callback given to the three
  editors: it holds the \<open>file\<close> of the render that created it, which is the file
  selected in that render, and runs when the editor's save settles.
\<close>

definition handleEdit :: "app \<times> viewer \<Rightarrow> app \<times> viewer" where
  "handleEdit s =
     (case selectedFile (fst s) of
        None \<Rightarrow> s
      | Some file \<Rightarrow> (fst s, (snd s)\<lparr>isEditing := True, editedContent := content file\<rparr>))"

definition setEditedContent :: "string \<Rightarrow> app \<times> viewer \<Rightarrow> app \<times> viewer" where
  "setEditedContent c s = (fst s, (snd s)\<lparr>editedContent := c\<rparr>)"

definition handleSave :: "app \<times> viewer \<Rightarrow> app \<times> viewer" where
  "handleSave s = (fst s, (snd s)\<lparr>isEditing := False\<rparr>)"

definition handleFileSave :: "uploaded_file \<Rightarrow> blob \<Rightarrow> app \<times> viewer \<Rightarrow> app \<times> viewer" where
  "handleFileSave file editedFile s =
     (handleFileUpdate (Some file) (file_id file) editedFile (fst s),
      (snd s)\<lparr>isEditing := False\<rparr>)"

text \<open>What the plain-text viewer displays.\<close>

definition preview_text :: "uploaded_file \<Rightarrow> string" where
  "preview_text file =
     (if content file \<noteq> '''' then content file else ''No content available for preview'')"

section \<open>PDFEditor: pages and annotations\<close>

text \<open>
  An annotation is placed in page space: origin at the bottom left, in PDF units.  The
  optional fields of the interface are options.
\<close>

datatype tool = TextTool | RectangleTool | CircleTool

record annotation =
  ann_id :: string
  ann_type :: tool
  ann_x :: real
  ann_y :: real
  ann_width :: "real option"
  ann_height :: "real option"
  ann_text :: "string option"
  ann_color :: string

text \<open>
  A PDF document is the list of its pages and a page is the list of what is drawn on it,
  in drawing order.  \<open>drawText\<close>, \<open>drawRectangle\<close> and \<open>drawCircle\<close> of pdf-lib add to the
  end of a page; the colour \<open>rgb(1, 0, 0)\<close> and the border width are constants of the
  source and are left out.
\<close>

datatype draw_op =
  DrawText string real real real
| DrawRectangle real real real real
| DrawCircle real real real

type_synonym page = "draw_op list"
type_synonym pdf = "page list"

record pdf_editor =
  pdfDoc :: "pdf option"
  currentPage :: int
  totalPages :: int
  annotations :: "annotation list"
  selectedTool :: tool
  scale :: real

definition initial_pdf_editor :: pdf_editor where
  "initial_pdf_editor =
     \<lparr>pdfDoc = None, currentPage = 1, totalPages = 0, annotations = [],
      selectedTool = TextTool, scale = 3 / 2\<rparr>"

text \<open>\<open>loadPDF\<close>, once \<open>pdfjsLib.getDocument\<close> has settled: \<open>None\<close> is a rejection.\<close>

definition loadPDF :: "pdf option \<Rightarrow> pdf_editor \<Rightarrow> pdf_editor" where
  "loadPDF res st =
     (case res of
        None \<Rightarrow> st
      | Some doc \<Rightarrow> st\<lparr>pdfDoc := Some doc, totalPages := int (length doc), currentPage := 1\<rparr>)"

text \<open>The toolbar: zoom and page buttons (a disabled button does nothing).\<close>

definition zoomOut :: "pdf_editor \<Rightarrow> pdf_editor" where
  "zoomOut st = st\<lparr>scale := max (1 / 2) (fl (scale st - 1 / 4))\<rparr>"

definition zoomIn :: "pdf_editor \<Rightarrow> pdf_editor" where
  "zoomIn st = st\<lparr>scale := min 3 (fl (scale st + 1 / 4))\<rparr>"

definition previousPage :: "pdf_editor \<Rightarrow> pdf_editor" where
  "previousPage st =
     (if currentPage st \<le> 1 then st else st\<lparr>currentPage := max 1 (currentPage st - 1)\<rparr>)"

definition nextPage :: "pdf_editor \<Rightarrow> pdf_editor" where
  "nextPage st =
     (if currentPage st \<ge> totalPages st then st
      else st\<lparr>currentPage := min (totalPages st) (currentPage st + 1)\<rparr>)"

definition setSelectedTool :: "tool \<Rightarrow> pdf_editor \<Rightarrow> pdf_editor" where
  "setSelectedTool t st = st\<lparr>selectedTool := t\<rparr>"

text \<open>
  \<open>handleCanvasClick\<close>.  The pointer event carries \<open>clientX\<close> and \<open>clientY\<close>; the canvas
  answers with its bounding rectangle and its height in pixels (\<open>None\<close>: there is no
  canvas).  \<open>now\<close> is \<open>Date.now()\<close>.
\<close>

record pointer =
  clientX :: real
  clientY :: real

record canvas_box =
  rect_left :: real
  rect_top :: real
  canvas_height :: real

definition newAnnotation :: "canvas_box \<Rightarrow> pointer \<Rightarrow> nat \<Rightarrow> pdf_editor \<Rightarrow> annotation" where
  "newAnnotation canvas event now st =
     \<lparr>ann_id = nat_to_string now,
      ann_type = selectedTool st,
      ann_x = fl (fl (clientX event - rect_left canvas) / scale st),
      ann_y = fl (fl (canvas_height canvas - fl (clientY event - rect_top canvas)) / scale st),
      ann_width = (if selectedTool st \<noteq> TextTool then Some 100 else None),
      ann_height = (if selectedTool st \<noteq> TextTool then Some 50 else None),
      ann_text = (if selectedTool st = TextTool then Some ''New Text'' else None),
      ann_color = ''#ff0000''\<rparr>"

definition handleCanvasClick ::
  "canvas_box option \<Rightarrow> pointer \<Rightarrow> nat \<Rightarrow> pdf_editor \<Rightarrow> pdf_editor" where
  "handleCanvasClick canvas event now st =
     (case canvas of
        None \<Rightarrow> st
      | Some c \<Rightarrow> st\<lparr>annotations := annotations st @ [newAnnotation c event now st]\<rparr>)"

text \<open>\<open>a || d\<close> on an optional number and on an optional string.\<close>

definition num_or :: "real option \<Rightarrow> real \<Rightarrow> real" where
  "num_or a d = (case a of None \<Rightarrow> d | Some v \<Rightarrow> if v = 0 then d else v)"

definition text_or :: "string option \<Rightarrow> string \<Rightarrow> string" where
  "text_or a d = (case a of None \<Rightarrow> d | Some v \<Rightarrow> if v = [] then d else v)"

text \<open>
  \<open>renderAnnotations\<close> paints every annotation of the list on the canvas, whatever page is
  shown.  \<open>screen_xy\<close> is the pair \<open>x\<close>, \<open>y\<close> it computes first: the place of the annotation
  in canvas pixels, for a viewport of height \<open>vh\<close>; \<open>paint_at\<close> is the \<open>switch\<close> that
  follows.
\<close>

datatype canvas_op =
  FillText string real real
| StrokeRect real real real real
| Arc real real real

definition screen_xy :: "real \<Rightarrow> real \<Rightarrow> annotation \<Rightarrow> real \<times> real" where
  "screen_xy sc vh a = (fl (ann_x a * sc), fl (vh - fl (ann_y a * sc)))"

definition paint_at :: "real \<Rightarrow> real \<times> real \<Rightarrow> annotation \<Rightarrow> canvas_op" where
  "paint_at sc xy a =
     (let (x, y) = xy in
      case ann_type a of
        TextTool \<Rightarrow> FillText (text_or (ann_text a) ''Text'') x y
      | RectangleTool \<Rightarrow>
          StrokeRect x (fl (y - fl (num_or (ann_height a) 50 * sc)))
                     (fl (num_or (ann_width a) 100 * sc)) (fl (num_or (ann_height a) 50 * sc))
      | CircleTool \<Rightarrow> Arc x y (fl (num_or (ann_width a) 25 * sc)))"

definition paint :: "real \<Rightarrow> real \<Rightarrow> annotation \<Rightarrow> canvas_op" where
  "paint sc vh a = paint_at sc (screen_xy sc vh a) a"

definition renderAnnotations :: "real \<Rightarrow> pdf_editor \<Rightarrow> canvas_op list" where
  "renderAnnotations vh st = map (paint (scale st) vh) (annotations st)"

text \<open>
  \<open>renderPage\<close> asks pdf.js for the viewport of the current page at the current scale
  (its width and height are given here), sizes the canvas to it and, once the page is
  drawn, paints the annotations.  The width and the height of an HTML canvas are whole
  numbers of pixels: assigning a number to \<open>canvas.height\<close> keeps its integer part.
  Without a document nothing is rendered.  The page drawn by pdf.js is left out.
\<close>

record viewport =
  vp_width :: real
  vp_height :: real

record page_canvas =
  px_width :: real
  px_height :: real
  painted :: "canvas_op list"

definition renderPage :: "viewport \<Rightarrow> pdf_editor \<Rightarrow> page_canvas option" where
  "renderPage vp st =
     (if pdfDoc st = None then None
      else Some \<lparr>px_width = of_int \<lfloor>vp_width vp\<rfloor>, px_height = of_int \<lfloor>vp_height vp\<rfloor>,
                 painted = renderAnnotations (vp_height vp) st\<rparr>)"

text \<open>
  \<open>handleSave\<close> of the PDFEditor fetches \<open>file.url\<close> again, has pdf-lib parse the bytes
  (\<open>decode\<close>; \<open>None\<close> when it throws), takes the page at index \<open>currentPage - 1\<close> and draws
  every annotation of the list on it.  The result is the document given to \<open>onSave\<close>;
  \<open>None\<close> means that an exception reached the \<open>catch\<close> and nothing was saved.  With no
  page at that index the first drawing call throws, and with no annotation nothing is
  called.
\<close>

definition draw :: "annotation \<Rightarrow> draw_op" where
  "draw a =
     (case ann_type a of
        TextTool \<Rightarrow> DrawText (text_or (ann_text a) ''Text'') (ann_x a) (ann_y a) 12
      | RectangleTool \<Rightarrow>
          DrawRectangle (ann_x a) (fl (ann_y a - num_or (ann_height a) 50))
                        (num_or (ann_width a) 100) (num_or (ann_height a) 50)
      | CircleTool \<Rightarrow> DrawCircle (ann_x a) (ann_y a) (num_or (ann_width a) 25))"

definition handleSave_PDF ::
  "(blob \<Rightarrow> pdf option) \<Rightarrow> registry \<Rightarrow> uploaded_file \<Rightarrow> pdf_editor \<Rightarrow> pdf option" where
  "handleSave_PDF decode r file st =
     (case fetch r (url file) of
        None \<Rightarrow> None
      | Some existingPdfBytes \<Rightarrow>
          (case decode existingPdfBytes of
             None \<Rightarrow> None
           | Some pages \<Rightarrow>
               (let i = currentPage st - 1 in
                if 0 \<le> i \<and> i < int (length pages)
                then Some (pages[nat i := fold (\<lambda>a p. p @ [draw a]) (annotations st) (pages ! nat i)])
                else if annotations st = [] then Some pages
                else None)))"

section \<open>ImageEditor: the scene\<close>

text \<open>
  The fabric canvas holds its objects in stacking order, the first one at the back.  An
  object is known by its identity \<open>oid\<close>; the canvas remembers which objects are active.
  Objects are selectable unless created otherwise, and the pointer can only make
  selectable objects active: that is the meaning fabric gives to \<open>selectable: false\<close>.
\<close>

datatype obj_kind = BackgroundImage | IText | Rect | Circle | Path

record scene_object =
  oid :: nat
  kind :: obj_kind
  selectable :: bool
  obj_left :: real
  obj_top :: real
  angle :: real
  colour :: string

record canvas =
  objects :: "scene_object list"
  active :: "nat list"
  next_oid :: nat
  disposed :: bool

definition new_canvas :: canvas where
  "new_canvas = \<lparr>objects = [], active = [], next_oid = 0, disposed = False\<rparr>"

definition add :: "scene_object \<Rightarrow> canvas \<Rightarrow> canvas" where
  "add obj c = c\<lparr>objects := objects c @ [obj]\<rparr>"

definition sendToBack :: "nat \<Rightarrow> canvas \<Rightarrow> canvas" where
  "sendToBack i c =
     c\<lparr>objects := filter (\<lambda>obj. oid obj = i) (objects c) @ filter (\<lambda>obj. oid obj \<noteq> i) (objects c)\<rparr>"

definition remove :: "nat \<Rightarrow> canvas \<Rightarrow> canvas" where
  "remove i c = c\<lparr>objects := filter (\<lambda>obj. oid obj \<noteq> i) (objects c)\<rparr>"

definition setActiveObject :: "nat \<Rightarrow> canvas \<Rightarrow> canvas" where
  "setActiveObject i c = c\<lparr>active := [i]\<rparr>"

definition discardActiveObject :: "canvas \<Rightarrow> canvas" where
  "discardActiveObject c = c\<lparr>active := []\<rparr>"

definition getActiveObjects :: "canvas \<Rightarrow> scene_object list" where
  "getActiveObjects c = filter (\<lambda>obj. oid obj \<in> set (active c)) (objects c)"

text \<open>
  The pointer asks for the objects with the given identities, by a click or by dragging a
  frame over them (all of them, when the frame covers the canvas); the objects of the
  canvas among them that are selectable become the active ones.
\<close>

definition pointer_select :: "nat list \<Rightarrow> canvas \<Rightarrow> canvas" where
  "pointer_select wanted c =
     c\<lparr>active := map oid (filter (\<lambda>obj. oid obj \<in> set wanted \<and> selectable obj) (objects c))\<rparr>"

definition select_all :: "canvas \<Rightarrow> canvas" where
  "select_all c = pointer_select (map oid (objects c)) c"

text \<open>
  The callback of \<open>fabric.Image.fromURL\<close>: nothing happens on a canvas that was disposed
  of in the meantime; otherwise the image is scaled to fit the canvas of 800 by 600,
  centred, made unselectable, added and sent to the back.
\<close>

definition image_loaded :: "real \<Rightarrow> real \<Rightarrow> canvas \<Rightarrow> canvas" where
  "image_loaded img_width img_height c =
     (if disposed c then c
      else
        (let sc = min (fl (800 / img_width)) (fl (600 / img_height));
             img = \<lparr>oid = next_oid c, kind = BackgroundImage, selectable = False,
                    obj_left = fl (fl (800 - fl (img_width * sc)) / 2),
                    obj_top = fl (fl (600 - fl (img_height * sc)) / 2),
                    angle = 0, colour = ''''\<rparr>
         in sendToBack (oid img) (add img (c\<lparr>next_oid := Suc (next_oid c)\<rparr>))))"

definition dispose :: "canvas \<Rightarrow> canvas" where
  "dispose c = c\<lparr>disposed := True\<rparr>"

definition shape :: "obj_kind \<Rightarrow> string \<Rightarrow> canvas \<Rightarrow> scene_object" where
  "shape k brushColor c =
     \<lparr>oid = next_oid c, kind = k, selectable = True, obj_left = 100, obj_top = 100, angle = 0,
      colour = brushColor\<rparr>"

definition add_active :: "scene_object \<Rightarrow> canvas \<Rightarrow> canvas" where
  "add_active obj c = setActiveObject (oid obj) (add obj (c\<lparr>next_oid := Suc (next_oid c)\<rparr>))"

definition addText :: "string \<Rightarrow> canvas \<Rightarrow> canvas" where
  "addText brushColor c = add_active (shape IText brushColor c) c"

definition addRectangle :: "string \<Rightarrow> canvas \<Rightarrow> canvas" where
  "addRectangle brushColor c = add_active (shape Rect brushColor c) c"

definition addCircle :: "string \<Rightarrow> canvas \<Rightarrow> canvas" where
  "addCircle brushColor c = add_active (shape Circle brushColor c) c"

text \<open>
  A stroke of the brush adds a path; it does not become active.  The selected tool only
  restricts when the brush and the pointer can be used, so the events below are always
  possible.
\<close>

definition brush_stroke :: "string \<Rightarrow> canvas \<Rightarrow> canvas" where
  "brush_stroke brushColor c =
     add (shape Path brushColor c) (c\<lparr>next_oid := Suc (next_oid c)\<rparr>)"

definition deleteSelected :: "canvas \<Rightarrow> canvas" where
  "deleteSelected c =
     (let activeObjects = getActiveObjects c in
      if activeObjects \<noteq> []
      then discardActiveObject (fold (\<lambda>obj. remove (oid obj)) activeObjects c)
      else c)"

text \<open>
  \<open>rotateImage\<close> turns what is active by 90 degrees: the active object, or the objects of
  the active group.
\<close>

definition rotateImage :: "canvas \<Rightarrow> canvas" where
  "rotateImage c =
     c\<lparr>objects := map (\<lambda>obj. if oid obj \<in> set (active c) then obj\<lparr>angle := fl (angle obj + 90)\<rparr>
                             else obj) (objects c)\<rparr>"

datatype scene_event =
  AddText string | AddRectangle string | AddCircle string | BrushStroke string
| PointerSelect "nat list" | SelectAll | DeleteSelected | RotateImage

fun scene_step :: "scene_event \<Rightarrow> canvas \<Rightarrow> canvas" where
  "scene_step (AddText col) c = addText col c"
| "scene_step (AddRectangle col) c = addRectangle col c"
| "scene_step (AddCircle col) c = addCircle col c"
| "scene_step (BrushStroke col) c = brush_stroke col c"
| "scene_step (PointerSelect wanted) c = pointer_select wanted c"
| "scene_step SelectAll c = select_all c"
| "scene_step DeleteSelected c = deleteSelected c"
| "scene_step RotateImage c = rotateImage c"

definition scene_run :: "scene_event list \<Rightarrow> canvas \<Rightarrow> canvas" where
  "scene_run es c = fold scene_step es c"

text \<open>
  A canvas is in order when its objects have different identities, all below the next
  one to be given out, as are the active identities, and every active identity that
  belongs to an object of the canvas belongs to a selectable one.  It has its background when the object at the back is an
  unselectable background image.
\<close>

definition canvas_ok :: "canvas \<Rightarrow> bool" where
  "canvas_ok c =
     (distinct (map oid (objects c))
      \<and> (\<forall>obj \<in> set (objects c). oid obj < next_oid c)
      \<and> (\<forall>i \<in> set (active c). i < next_oid c)
      \<and> (\<forall>obj \<in> set (objects c). oid obj \<in> set (active c) \<longrightarrow> selectable obj))"

definition has_background :: "canvas \<Rightarrow> bool" where
  "has_background c =
     (case objects c of
        [] \<Rightarrow> False
      | obj # _ \<Rightarrow> kind obj = BackgroundImage \<and> \<not> selectable obj)"

section \<open>Editors that stay mounted\<close>

text \<open>
  The ExcelEditor stays mounted when the selected file changes to another spreadsheet:
  its effect starts \<open>loadExcelData\<close> for the new file, and a load that was started for
  the previous file settles whenever its \<open>fetch\<close> and parse are done.  A settling load
  carries the file it was started for; the state it writes to is the editor's current
  one.  The PDFEditor does the same with \<open>loadPDF\<close>.
\<close>

record excel_editor =
  ed_file :: uploaded_file
  ed_grid :: grid

datatype excel_event = FileChanged uploaded_file | LoadSettled uploaded_file load_result

fun excel_step :: "excel_event \<Rightarrow> excel_editor \<Rightarrow> excel_editor" where
  "excel_step (FileChanged f) ed = ed\<lparr>ed_file := f\<rparr>"
| "excel_step (LoadSettled started_for res) ed = ed\<lparr>ed_grid := loadExcelData res (ed_grid ed)\<rparr>"

definition excel_run :: "excel_event list \<Rightarrow> excel_editor \<Rightarrow> excel_editor" where
  "excel_run es ed = fold excel_step es ed"

definition mount_excel :: "uploaded_file \<Rightarrow> excel_editor" where
  "mount_excel f = \<lparr>ed_file = f, ed_grid = initial_grid\<rparr>"

record pdf_view =
  pv_file :: uploaded_file
  pv_state :: pdf_editor

datatype pdf_event = PdfFileChanged uploaded_file | PdfLoadSettled uploaded_file "pdf option"

fun pdf_step :: "pdf_event \<Rightarrow> pdf_view \<Rightarrow> pdf_view" where
  "pdf_step (PdfFileChanged f) v = v\<lparr>pv_file := f\<rparr>"
| "pdf_step (PdfLoadSettled started_for res) v = v\<lparr>pv_state := loadPDF res (pv_state v)\<rparr>"

section \<open>Concrete inputs\<close>

text \<open>
  A viewport of 892.5 by 1262.75 pixels, the canvas as \<open>renderPage\<close> sizes it for that
  viewport, placed at 10, 20 in the window, and a click.
\<close>

definition a4_canvas :: canvas_box where
  "a4_canvas = \<lparr>rect_left = 10, rect_top = 20, canvas_height = 1262\<rparr>"

definition a4_viewport :: viewport where
  "a4_viewport = \<lparr>vp_width = 1785 / 2, vp_height = 5051 / 4\<rparr>"

definition click_at :: pointer where
  "click_at = \<lparr>clientX = 100, clientY = 211\<rparr>"

text \<open>A PDF of two blank pages behind URL 0, and the editor opened on it.\<close>

definition two_pages :: pdf where
  "two_pages = [[], []]"

definition pdf_bytes :: blob where
  "pdf_bytes = [37, 80, 68, 70]"

definition pdf_registry :: registry where
  "pdf_registry = \<lparr>next_url = 1, url_log = [Created 0 pdf_bytes]\<rparr>"

definition pdf_file :: uploaded_file where
  "pdf_file =
     \<lparr>file_id = ''1000-0'', file_name = ''doc.pdf'', file_type = ''application/pdf'',
      file_size = 4, url = 0, content = ''''\<rparr>"

definition pdf_decode :: "blob \<Rightarrow> pdf option" where
  "pdf_decode = [pdf_bytes \<mapsto> two_pages]"

definition opened_pdf :: pdf_editor where
  "opened_pdf = loadPDF (Some two_pages) initial_pdf_editor"

text \<open>
  A sheet with the single header \<open>Column2\<close>, and a sheet with the single header
  \<open>Column 2\<close> to which a column is added and whose new cell is then filled in.
\<close>

definition column2_grid :: grid where
  "column2_grid = loadExcelData (Loaded ''Sheet1'' [[Some (Str ''Column2'')], [Some (Str ''x'')]]) initial_grid"

definition two_names_grid :: grid where
  "two_names_grid =
     handleRowsChange [[''id'' \<mapsto> Num ''0'', ''Column 2'' \<mapsto> Str ''x'', ''Column2'' \<mapsto> Str ''y'']]
       (addColumn (loadExcelData (Loaded ''Sheet1'' [[Some (Str ''Column 2'')], [Some (Str ''x'')]]) initial_grid))"

definition ab_grid :: grid where
  "ab_grid =
     loadExcelData (Loaded ''Sheet1'' [[Some (Str ''a''), Some (Str ''b'')], [Some (Str ''1''), Some (Str ''2'')],
                             [Some (Str ''3'')]])
       initial_grid"

text \<open>A text file, selected, and the viewer before editing.\<close>

definition notes_file :: uploaded_file where
  "notes_file =
     \<lparr>file_id = ''2000-0'', file_name = ''notes.txt'', file_type = ''text/plain'',
      file_size = 5, url = 0, content = ''hello''\<rparr>"

definition notes_app :: app where
  "notes_app =
     \<lparr>uploadedFiles = [notes_file], selectedFile = Some notes_file,
      reg = \<lparr>next_url = 1, url_log = [Created 0 [104, 101, 108, 108, 111]]\<rparr>\<rparr>"

definition closed_viewer :: viewer where
  "closed_viewer = \<lparr>isEditing = False, editedContent = ''''\<rparr>"

text \<open>
  A canvas on which a rectangle was added before the image arrived, and what the user
  does next: add a text, select everything, delete the selection.
\<close>

definition loaded_canvas :: canvas where
  "loaded_canvas = image_loaded 1600 600 (scene_run [AddRectangle ''#ff0000''] new_canvas)"

definition select_all_and_delete :: "scene_event list" where
  "select_all_and_delete = [AddText ''#0000ff'', SelectAll, DeleteSelected]"

text \<open>
  Two spreadsheets \<open>A\<close> and \<open>B\<close> and what loading each of them delivers; two PDF
  documents of three pages and of one page.
\<close>

definition sheet_a :: uploaded_file where
  "sheet_a =
     \<lparr>file_id = ''3000-0'', file_name = ''a.xlsx'', file_type = ''application/vnd.ms-excel'',
      file_size = 10, url = 0, content = ''''\<rparr>"

definition sheet_b :: uploaded_file where
  "sheet_b =
     \<lparr>file_id = ''3000-1'', file_name = ''b.xlsx'', file_type = ''application/vnd.ms-excel'',
      file_size = 20, url = 1, content = ''''\<rparr>"

definition load_a :: load_result where
  "load_a = Loaded ''A'' [[Some (Str ''a'')], [Some (Str ''1'')]]"

definition load_b :: load_result where
  "load_b = Loaded ''B'' [[Some (Str ''b'')], [Some (Str ''2'')]]"

definition switch_then_b :: "excel_event list" where
  "switch_then_b = [FileChanged sheet_b, LoadSettled sheet_b load_b]"

definition switch_then_b_then_a :: "excel_event list" where
  "switch_then_b_then_a = [FileChanged sheet_b, LoadSettled sheet_b load_b, LoadSettled sheet_a load_a]"

text \<open>
  Two uploads of one file each, made while the clock shows the same millisecond, followed
  by two saves; and one upload of two files followed by selecting, saving and deleting.
\<close>

definition first_pdf :: upload where
  "first_pdf =
     \<lparr>up_name = ''a.pdf'', up_type = ''application/pdf'', up_blob = [1, 2], up_text = None,
      up_now = 1000\<rparr>"

definition second_pdf :: upload where
  "second_pdf =
     \<lparr>up_name = ''b.pdf'', up_type = ''application/pdf'', up_blob = [3], up_text = None,
      up_now = 1000\<rparr>"

definition same_clock_ops :: "store_op list" where
  "same_clock_ops =
     [Upload [first_pdf], Upload [second_pdf], Select 0,
      Update ''1000-0'' [7], Update ''1000-0'' [8]]"

definition usual_ops :: "store_op list" where
  "usual_ops = [Upload [first_pdf, second_pdf], Select 0, Update ''1000-0'' [7], Delete ''1000-1'']"

text \<open>
  A sheet whose first header cell is empty: \<open>sheet_to_json\<close> delivers the header row
  with a hole in the first place.
\<close>

definition unnamed_first_column :: load_result where
  "unnamed_first_column =
     Loaded ''Sheet1'' [[None, Some (Str ''b'')], [Some (Str ''1''), Some (Str ''2'')]]"

text \<open>
  The PDF editor after a click on page 1 and a change to page 2.
\<close>

definition annotated_on_page_one :: pdf_editor where
  "annotated_on_page_one = nextPage (handleCanvasClick (Some a4_canvas) click_at 5 opened_pdf)"

text \<open>
  Two PDF files, the first one selected, and a save of the first that settles after the
  second was selected.
\<close>

definition two_files :: app where
  "two_files = store_run [Upload [first_pdf, second_pdf], Select 0] initial_app"

definition late_save :: "store_op list" where
  "late_save = [Select 1, LateUpdate (selectedFile two_files) ''1000-0'' [7]]"

section \<open>Rounding\<close>

text \<open>
  Rounding moves a number by at most half a unit in its last place, and leaves alone the
  whole numbers below \<open>2^53\<close>.
\<close>

lemma round_even_close: "\<bar>of_int (round_even t) - t\<bar> \<le> 1 / 2"
  unfolding round_even_def Let_def by (auto simp: abs_if) linarith+

lemma round_even_of_int [simp]: "round_even (of_int n) = n"
  by (simp add: round_even_def)

lemma ulp_le:
  assumes "x \<noteq> 0"
  shows "(2::real) powr of_int (ulp_exponent x) \<le> \<bar>x\<bar> / 2 ^ 52 + 2 powr (- 1074)"
proof -
  let ?l = "\<lfloor>log 2 \<bar>x\<bar>\<rfloor>"
  have a: "0 < \<bar>x\<bar>" using assms by simp
  have "of_int ?l \<le> log 2 \<bar>x\<bar>" by simp
  then have "(2::real) powr of_int ?l \<le> \<bar>x\<bar>"
    using a le_log_iff [of 2 "\<bar>x\<bar>" "of_int ?l"] by simp
  then have big: "(2::real) powr of_int (?l - 52) \<le> \<bar>x\<bar> / 2 ^ 52"
    by (simp add: powr_diff divide_right_mono)
  have small: "(0::real) \<le> 2 powr (- 1074)" by simp
  show ?thesis
  proof (cases "- 1074 \<le> ?l - 52")
    case True
    then have "ulp_exponent x = ?l - 52" by (simp add: ulp_exponent_def)
    with big have "(2::real) powr of_int (ulp_exponent x) \<le> \<bar>x\<bar> / 2 ^ 52" by simp
    moreover have "(0::real) < 2 powr (- 1074)" by simp
    ultimately show ?thesis by linarith
  next
    case False
    then have "ulp_exponent x = - 1074" by (simp add: ulp_exponent_def)
    then show ?thesis using a by simp
  qed
qed

lemma fl_error: "\<bar>fl x - x\<bar> \<le> \<bar>x\<bar> / 2 ^ 53 + 2 powr (- 1075)"
proof (cases "x = 0")
  case True
  then show ?thesis by (simp add: fl_def)
next
  case False
  let ?q = "(2::real) powr of_int (ulp_exponent x)"
  have q: "0 < ?q" by simp
  have "fl x - x = (of_int (round_even (x / ?q)) - x / ?q) * ?q"
    using False q by (simp add: fl_def field_simps)
  then have "\<bar>fl x - x\<bar> = \<bar>of_int (round_even (x / ?q)) - x / ?q\<bar> * ?q"
    using q by (simp add: abs_mult)
  also have "\<dots> \<le> (1 / 2) * ?q"
    using round_even_close [of "x / ?q"] q by (intro mult_right_mono) simp_all
  also have "\<dots> \<le> (1 / 2) * (\<bar>x\<bar> / 2 ^ 52 + 2 powr (- 1074))"
    using ulp_le [OF False] by simp
  also have "\<dots> = \<bar>x\<bar> / 2 ^ 53 + 2 powr (- 1075)"
  proof -
    have "(2::real) powr (- 1075) = 2 powr (- 1074) / 2"
      using powr_diff [of "2::real" "- 1074" 1] by simp
    then show ?thesis by simp
  qed
  finally show ?thesis .
qed

lemma tiny: "(2::real) powr (- 1075) \<le> 1 / 2 ^ 53"
proof -
  have "(2::real) powr (- 1075) \<le> 2 powr (- 53)" by (intro powr_mono) simp_all
  also have "\<dots> = 1 / 2 ^ 53" by (simp add: powr_minus_divide)
  finally show ?thesis .
qed

lemma fl_close:
  assumes "\<bar>z\<bar> \<le> b"
  shows "\<bar>fl z - z\<bar> \<le> (b + 1) / 2 ^ 53"
proof -
  have "\<bar>fl z - z\<bar> \<le> \<bar>z\<bar> / 2 ^ 53 + 2 powr (- 1075)" by (rule fl_error)
  also have "\<dots> \<le> b / 2 ^ 53 + 1 / 2 ^ 53"
    using assms tiny by (intro add_mono divide_right_mono) simp_all
  finally show ?thesis by (simp add: add_divide_distrib)
qed

lemma fl_of_int:
  assumes "\<bar>m\<bar> < 2 ^ 53"
  shows "fl (of_int m) = of_int m"
proof (cases "m = 0")
  case True
  then show ?thesis by (simp add: fl_def)
next
  case False
  let ?x = "of_int m :: real"
  have pos: "0 < \<bar>?x\<bar>" using False by simp
  have "\<bar>?x\<bar> < 2 ^ 53" using assms by (metis of_int_abs of_int_less_numeral_power_cancel_iff)
  then have "\<bar>?x\<bar> < 2 powr 53" by simp
  then have "log 2 \<bar>?x\<bar> < 53" using pos by (simp add: log_less_iff)
  then have "\<lfloor>log 2 \<bar>?x\<bar>\<rfloor> \<le> 52" by linarith
  then have e: "ulp_exponent ?x \<le> 0" by (simp add: ulp_exponent_def)
  define k where "k = nat (- ulp_exponent ?x)"
  have q: "(2::real) powr of_int (ulp_exponent ?x) = 1 / 2 ^ k"
    using e by (auto simp: powr_real_of_int k_def inverse_eq_divide)
  have "?x / (1 / 2 ^ k) = of_int (m * 2 ^ k)" by simp
  then have "round_even (?x / (1 / 2 ^ k)) = m * 2 ^ k"
    by (metis round_even_of_int)
  then show ?thesis
    using False by (simp add: fl_def q)
qed

lemma fl_numeral: "numeral n < (2::int) ^ 53 \<Longrightarrow> fl (numeral n) = numeral n"
  using fl_of_int [of "numeral n"] by simp

lemma fl_0 [simp]: "fl 0 = 0" by (simp add: fl_def)
lemma fl_1 [simp]: "fl 1 = 1" using fl_of_int [of 1] by simp


section \<open>Choosing the editor\<close>

lemmas str_eval = includes_str_def endsWith_def sublist_code suffix_to_prefix

lemma renderEditor_pdf_first: "includes_str t ''pdf'' \<Longrightarrow> renderEditor t n = PaginatedDoc"
  by (simp add: renderEditor_def)

lemma renderEditor_unmatched:
  "\<not> includes_str t ''pdf'' \<Longrightarrow> \<not> includes_str t ''sheet'' \<Longrightarrow> \<not> includes_str t ''excel''
   \<Longrightarrow> \<not> includes_str t ''image'' \<Longrightarrow> \<not> endsWith n ''.xlsx'' \<Longrightarrow> \<not> endsWith n ''.xls''
   \<Longrightarrow> \<not> endsWith n ''.csv'' \<Longrightarrow> renderEditor t n = PlainText"
  by (simp add: renderEditor_def)

lemma renderViewer_type_first:
  "includes_str t ''image'' \<Longrightarrow> renderViewer t n = Scene"
  "\<not> includes_str t ''image'' \<Longrightarrow> includes_str t ''pdf'' \<Longrightarrow> renderViewer t n = PaginatedDoc"
  by (simp_all add: renderViewer_def)

text \<open>
  C3 at a file of type \<open>image/png\<close> named \<open>photo.csv\<close>, and at a file without a type named
  \<open>book.xlsx\<close>.  In \<open>renderEditor\<close> the test of the file name comes before the test for an
  image type, so the image is given to the spreadsheet editor, while \<open>renderViewer\<close>
  tests the image type first and shows it as an image.  \<open>renderViewer\<close> knows the
  extension \<open>.csv\<close> only, so the workbook is shown as plain text and edited as a grid.
\<close>

theorem renderEditor_extension_beats_image_type:
  "renderEditor ''image/png'' ''photo.csv'' = Grid
   \<and> renderViewer ''image/png'' ''photo.csv'' = Scene
   \<and> renderEditor '''' ''book.xlsx'' = Grid
   \<and> renderViewer '''' ''book.xlsx'' = PlainText"
  by (simp add: renderEditor_def renderViewer_def str_eval)

section \<open>Saving in the plain-text editor\<close>

text \<open>
  C10.  Whatever was typed into the plain-text editor, \<open>handleSave\<close> leaves the App's
  state as it was, and with it the list of files, the selection and the bytes behind every
  URL; it only leaves edit mode.  The typed text is not kept: the next \<open>handleEdit\<close> starts
  from the content of the file again.
\<close>

theorem text_save_leaves_record:
  "fst (handleSave (setEditedContent c (handleEdit (a, v)))) = a
   \<and> \<not> isEditing (snd (handleSave (setEditedContent c (handleEdit (a, v)))))
   \<and> (case selectedFile a of
         None \<Rightarrow> True
       | Some file \<Rightarrow>
           editedContent (snd (handleEdit (handleSave (setEditedContent c (handleEdit (a, v))))))
             = content file)"
  by (simp add: handleSave_def setEditedContent_def handleEdit_def split: option.splits)

theorem text_save_leaves_record_witness:
  "fst (handleSave (setEditedContent ''typed'' (handleEdit (notes_app, closed_viewer)))) = notes_app
   \<and> editedContent (snd (handleEdit (handleSave (setEditedContent ''typed''
         (handleEdit (notes_app, closed_viewer)))))) = ''hello''"
  using text_save_leaves_record [of "''typed''" notes_app closed_viewer]
  by (simp add: notes_app_def notes_file_def)

text \<open>The editors' \<open>onSave\<close>, by contrast, asks the registry for a new URL.\<close>

lemma handleFileSave_new_url:
  "next_url (reg (fst (handleFileSave file b (a, v)))) = Suc (next_url (reg a))"
proof -
  have nf: "next_url (fold (\<lambda>f r. if file_id f = i then revokeObjectURL (url f) r else r) fs r)
          = next_url r" for i fs r
    by (induction fs arbitrary: r) (simp_all add: revokeObjectURL_def)
  show ?thesis
    by (simp add: handleFileSave_def handleFileUpdate_def createObjectURL_def nf)
qed

section \<open>Placing and painting annotations\<close>

text \<open>
  Dividing by the scale and multiplying by it again rounds twice; for a scale between 0.5
  and 3 the result is off by a few units in the last place.
\<close>

lemma scale_back:
  assumes s: "1 / 2 \<le> s" "s \<le> 3" and p: "\<bar>p\<bar> \<le> b" and b: "b \<le> 2 ^ 20"
  shows "\<bar>fl (fl (p / s) * s) - p\<bar> \<le> (7 * b + 5) / 2 ^ 53"
    and "\<bar>fl (fl (p / s) * s)\<bar> \<le> b + 2"
proof -
  define u :: real where "u = 1 / 2 ^ 53"
  define w where "w = b * u"
  have u: "0 < u" "u \<le> 1 / 16" by (simp_all add: u_def)
  have b0: "0 \<le> b" using p by linarith
  have w: "0 \<le> w" "w \<le> 1 / 16"
  proof -
    show "0 \<le> w" using b0 u by (simp add: w_def)
    have "w \<le> 2 ^ 20 * u" unfolding w_def using b u by (intro mult_right_mono) simp_all
    also have "\<dots> \<le> 1 / 16" by (simp add: u_def)
    finally show "w \<le> 1 / 16" .
  qed
  let ?q = "fl (p / s)"
  have spos: "0 < s" using s by linarith
  have "\<bar>p / s\<bar> = \<bar>p\<bar> / s" using spos by simp
  also have "\<dots> \<le> \<bar>p\<bar> / (1 / 2)"
    using s by (intro divide_left_mono) simp_all
  finally have a1: "\<bar>p / s\<bar> \<le> 2 * b" using p by simp
  have e1: "\<bar>?q - p / s\<bar> \<le> 2 * w + u"
    using fl_close [OF a1] by (simp add: u_def w_def algebra_simps add_divide_distrib)
  have "?q * s - p = (?q - p / s) * s" using spos by (simp add: field_simps)
  then have "\<bar>?q * s - p\<bar> = \<bar>?q - p / s\<bar> * s" using spos by (simp add: abs_mult)
  also have "\<dots> \<le> (2 * w + u) * 3"
    using e1 s u w by (intro mult_mono) simp_all
  finally have e2: "\<bar>?q * s - p\<bar> \<le> 6 * w + 3 * u" by simp
  have m: "\<bar>?q * s\<bar> \<le> b + 1"
    using e2 p w u by linarith
  have e3: "\<bar>fl (?q * s) - ?q * s\<bar> \<le> w + 2 * u"
    using fl_close [OF m] by (simp add: u_def w_def algebra_simps add_divide_distrib)
  have "\<bar>fl (?q * s) - p\<bar> \<le> 7 * w + 5 * u"
    using e2 e3 by linarith
  then show "\<bar>fl (fl (p / s) * s) - p\<bar> \<le> (7 * b + 5) / 2 ^ 53"
    by (simp add: u_def w_def algebra_simps add_divide_distrib)
  show "\<bar>fl (fl (p / s) * s)\<bar> \<le> b + 2"
    using e3 m w u by linarith
qed





section \<open>Saving a PDF\<close>

lemma fold_draw: "fold (\<lambda>a p. p @ [draw a]) as p = p @ map draw as"
  by (induction as arbitrary: p) simp_all

text \<open>
  C4, as far as it fails.  On a document of two pages an annotation is placed while page
  1 is shown; then page 2 is shown and the document is saved.  The annotation is in the
  saved document, drawn on page 2.
\<close>

theorem annotation_of_page_one_saved_on_page_two:
  "handleSave_PDF pdf_decode pdf_registry pdf_file
     (nextPage (handleCanvasClick (Some a4_canvas) click_at 5 opened_pdf))
   = Some [[], [DrawText ''New Text'' 60 714 12]]"
  by (simp add: handleSave_PDF_def pdf_decode_def pdf_registry_def pdf_file_def fetch_def
      nextPage_def handleCanvasClick_def newAnnotation_def opened_pdf_def loadPDF_def
      initial_pdf_editor_def a4_canvas_def click_at_def two_pages_def draw_def text_or_def
      fl_numeral)

text \<open>
  C4, amended.  Saving parses the bytes behind the file's URL again and draws every
  annotation of the list, in the order of the list, at the end of the page at index
  \<open>currentPage - 1\<close>; the other pages are as parsed.  The document shown by the preview,
  the scale, the page count and the tool have no part in it.  Annotations carry no page:
  all of them, wherever they were placed, go to the page shown when saving.
\<close>

theorem export_draws_on_current_page:
  assumes "fetch r (url doc) = Some bytes" and "decode bytes = Some pages"
    and "1 \<le> currentPage st" and "currentPage st \<le> int (length pages)"
  shows "\<exists>out. handleSave_PDF decode r doc st = Some out
           \<and> length out = length pages
           \<and> out ! nat (currentPage st - 1)
               = pages ! nat (currentPage st - 1) @ map draw (annotations st)
           \<and> (\<forall>j < length pages. j \<noteq> nat (currentPage st - 1) \<longrightarrow> out ! j = pages ! j)
           \<and> handleSave_PDF decode r doc
               (st\<lparr>pdfDoc := d, scale := s, totalPages := n, selectedTool := t\<rparr>) = Some out"
  using assms by (simp add: handleSave_PDF_def fold_draw Let_def)

theorem export_draws_on_current_page_witness:
  "currentPage annotated_on_page_one = 2
   \<and> map draw (annotations annotated_on_page_one) = [DrawText ''New Text'' 60 714 12]
   \<and> (\<exists>out. handleSave_PDF pdf_decode pdf_registry pdf_file annotated_on_page_one = Some out
         \<and> length out = 2 \<and> out ! 0 = [] \<and> out ! 1 = [DrawText ''New Text'' 60 714 12])"
proof -
  have f: "fetch pdf_registry (url pdf_file) = Some pdf_bytes"
    by (simp add: fetch_def pdf_registry_def pdf_file_def)
  have d: "pdf_decode pdf_bytes = Some two_pages"
    by (simp add: pdf_decode_def)
  have p: "currentPage annotated_on_page_one = 2"
    by (simp add: annotated_on_page_one_def nextPage_def handleCanvasClick_def opened_pdf_def
        loadPDF_def initial_pdf_editor_def two_pages_def)
  have a: "map draw (annotations annotated_on_page_one) = [DrawText ''New Text'' 60 714 12]"
    by (simp add: annotated_on_page_one_def nextPage_def handleCanvasClick_def opened_pdf_def
        loadPDF_def initial_pdf_editor_def two_pages_def newAnnotation_def draw_def text_or_def
        a4_canvas_def click_at_def fl_numeral)
  have l: "length two_pages = 2" "two_pages ! 0 = []" "two_pages ! 1 = []"
    by (simp_all add: two_pages_def)
  have "1 \<le> currentPage annotated_on_page_one"
    "currentPage annotated_on_page_one \<le> int (length two_pages)"
    by (simp_all add: p l)
  from export_draws_on_current_page
         [where r = pdf_registry and doc = pdf_file and bytes = pdf_bytes
            and decode = pdf_decode and pages = two_pages and st = annotated_on_page_one,
          OF f d this]
  obtain out where
    "handleSave_PDF pdf_decode pdf_registry pdf_file annotated_on_page_one = Some out"
    "length out = length two_pages"
    "out ! nat (currentPage annotated_on_page_one - 1)
       = two_pages ! nat (currentPage annotated_on_page_one - 1)
         @ map draw (annotations annotated_on_page_one)"
    "\<forall>j < length two_pages. j \<noteq> nat (currentPage annotated_on_page_one - 1) \<longrightarrow>
        out ! j = two_pages ! j"
    by blast
  then show ?thesis using p a l by auto
qed

section \<open>The grid: loading\<close>

text \<open>Facts for evaluating the grid on concrete sheets.\<close>

lemmas grid_eval =
  loadExcelData_def cols_def rowsData_def rowObj_def header_key_def header_name_def
  or_else_def elem_at_def get_prop_def read_def assign_def prototype_names_def spread_def
  initial_grid_def enumerate_eq_zip
  addColumn_def newColumn_def newColumnKey_def addRow_def handleRowsChange_def
  cell_text_def header_names_def wsData_def reload_def
  nat_to_string.simps digit_char_def

lemma items_map_Item [simp]: "items (map Item xs) = xs"
  by (induction xs) simp_all

lemma all_items: "\<forall>s \<in> set xs. \<exists>c. s = Item c \<Longrightarrow> map Item (items xs) = xs"
  by (induction xs) auto

text \<open>
  A row object is built by assignments; under a property name other than \<open>__proto__\<close>
  that no later assignment uses, the object holds the value assigned there.
\<close>

lemma fold_assign_other:
  "k \<notin> fst ` set kvs \<Longrightarrow> fold (\<lambda>(k', v) m. assign m k' v) kvs m k = m k"
  by (induction kvs arbitrary: m) (auto simp: assign_def)

lemma fold_assign_last:
  "k \<noteq> ''__proto__'' \<Longrightarrow> k \<notin> fst ` set post \<Longrightarrow>
   fold (\<lambda>(k', v) m. assign m k' v) (pre @ (k, v) # post) m k = Some v"
proof -
  assume k: "k \<noteq> ''__proto__''" and post: "k \<notin> fst ` set post"
  have "fold (\<lambda>(k', v) m. assign m k' v) (pre @ (k, v) # post) m k
          = fold (\<lambda>(k', v) m. assign m k' v) post
              (assign (fold (\<lambda>(k', v) m. assign m k' v) pre m) k v) k"
    by simp
  also have "\<dots> = assign (fold (\<lambda>(k', v) m. assign m k' v) pre m) k v k"
    using post by (rule fold_assign_other)
  also have "\<dots> = Some v"
    using k by (simp add: assign_def)
  finally show ?thesis .
qed

lemma fold_headers:
  "fold (\<lambda>(colIndex, h) obj.
           case h of
             None \<Rightarrow> obj
           | Some header \<Rightarrow>
               assign obj (to_key (header_key header colIndex))
                 (or_else (elem_at row colIndex) (Str ''''))) es m
   = fold (\<lambda>(k', v) m. assign m k' v)
       (concat (map (\<lambda>(colIndex, h).
                       case h of
                         None \<Rightarrow> []
                       | Some header \<Rightarrow>
                           [(to_key (header_key header colIndex),
                             or_else (elem_at row colIndex) (Str ''''))]) es)) m"
  by (induction es arbitrary: m) (auto split: option.splits)

lemma rowObj_assignments:
  "rowObj headers row i =
     fold (\<lambda>(k', v) m. assign m k' v) (assignments headers row)
       [''id'' \<mapsto> Num (nat_to_string i)]"
  by (simp add: rowObj_def assignments_def fold_headers)

text \<open>A header row without holes.\<close>

lemma enumerate_map_Some:
  "enumerate n (map Some hs) = map (\<lambda>(j, h). (j, Some h)) (enumerate n hs)"
  by (induction hs arbitrary: n) simp_all

lemma assignments_dense:
  "assignments (map Some hs) row
     = map (\<lambda>(j, h). (to_key (header_key h j), or_else (elem_at row j) (Str ''''))) (enumerate 0 hs)"
proof -
  have "concat (map (\<lambda>(j, h). [f j h]) xs) = map (\<lambda>(j, h). f j h) xs" for f :: "nat \<Rightarrow> cell \<Rightarrow> string \<times> cell" and xs
    by (induction xs) auto
  then show ?thesis
    by (simp add: assignments_def enumerate_map_Some split_def comp_def)
qed

lemma cols_dense:
  "cols (map Some hs)
     = map (\<lambda>(j, h). Item \<lparr>key = header_key h j, name = header_name h j,
                               editable = True, resizable = True\<rparr>) (enumerate 0 hs)"
  by (simp add: cols_def enumerate_map_Some split_def comp_def)

lemma rowObj_at:
  assumes j: "j < length hs"
    and proto: "to_key (header_key (hs ! j) j) \<noteq> ''__proto__''"
    and later: "\<forall>j' < length hs. j < j' \<longrightarrow>
                 to_key (header_key (hs ! j') j') \<noteq> to_key (header_key (hs ! j) j)"
  shows "rowObj (map Some hs) row i (to_key (header_key (hs ! j) j))
           = Some (or_else (elem_at row j) (Str ''''))"
proof -
  let ?kvs = "assignments (map Some hs) row"
  let ?k = "to_key (header_key (hs ! j) j)"
  have len: "length ?kvs = length hs" by (simp add: assignments_dense)
  have nth: "?kvs ! n = (to_key (header_key (hs ! n) n), or_else (elem_at row n) (Str ''''))"
    if "n < length hs" for n
    using that by (simp add: assignments_dense nth_enumerate_eq)
  have split: "?kvs = take j ?kvs @ (?k, or_else (elem_at row j) (Str '''')) # drop (Suc j) ?kvs"
    using j len nth [OF j] by (metis id_take_nth_drop)
  have "?k \<notin> fst ` set (drop (Suc j) ?kvs)"
  proof
    assume "?k \<in> fst ` set (drop (Suc j) ?kvs)"
    then obtain p where p: "p \<in> set (drop (Suc j) ?kvs)" and fp: "fst p = ?k" by auto
    from p obtain n where n: "n < length (drop (Suc j) ?kvs)" and pn: "drop (Suc j) ?kvs ! n = p"
      by (auto simp: in_set_conv_nth)
    from n len have lt: "Suc j + n < length hs" by simp
    with pn len have "p = ?kvs ! (Suc j + n)" by simp
    with lt have "fst p = to_key (header_key (hs ! (Suc j + n)) (Suc j + n))"
      by (simp add: nth)
    with later lt fp show False by force
  qed
  with proto have "fold (\<lambda>(k', v) m. assign m k' v)
               (take j ?kvs @ (?k, or_else (elem_at row j) (Str '''')) # drop (Suc j) ?kvs)
               [''id'' \<mapsto> Num (nat_to_string i)] ?k
             = Some (or_else (elem_at row j) (Str ''''))"
    by (rule fold_assign_last)
  with split show ?thesis by (simp add: rowObj_assignments)
qed

lemma length_rowsData [simp]: "length (rowsData headers rows) = length rows"
  by (simp add: rowsData_def)

lemma rowsData_nth:
  "i < length rows \<Longrightarrow> rowsData headers rows ! i = rowObj headers (rows ! i) i"
  by (simp add: rowsData_def nth_enumerate_eq)

text \<open>
  A failed load gives five columns \<open>Column 1\<close> .. \<open>Column 5\<close> and ten rows of empty
  strings, whatever the state before.
\<close>

lemma empty_headers:
  "map name defaultColumns
     = [Str ''Column 1'', Str ''Column 2'', Str ''Column 3'', Str ''Column 4'', Str ''Column 5'']"
  by code_simp

lemma empty_cells:
  "map (\<lambda>row. map (\<lambda>col. get_prop row (key col)) defaultColumns) defaultRows
     = replicate 10 (replicate 5 (Str ''''))"
  by code_simp

lemma loadExcelData_failed:
  "header_names (loadExcelData (LoadFailed e) g)
     = [Str ''Column 1'', Str ''Column 2'', Str ''Column 3'', Str ''Column 4'', Str ''Column 5'']
   \<and> cell_text (loadExcelData (LoadFailed e) g) = replicate 10 (replicate 5 (Str ''''))"
  using empty_cells
  by (simp add: header_names_def cell_text_def loadExcelData_def createEmptySpreadsheet_def
      empty_headers)


text \<open>
  A header cell that is there and empty is replaced by \<open>Column N\<close>, with \<open>N\<close> its position
  counted from 1, and a missing cell below a header is loaded as the empty string.
\<close>

lemma empty_header_is_named:
  "columns (loadExcelData (Loaded ''Sheet1'' [[Some (Str ''''), Some (Str ''b'')], [Some (Str ''1'')]])
              initial_grid)
     = [Item \<lparr>key = Str ''Column1'', name = Str ''Column 1'', editable = True, resizable = True\<rparr>,
        Item \<lparr>key = Str ''b'', name = Str ''b'', editable = True, resizable = True\<rparr>]
   \<and> cell_text (loadExcelData (Loaded ''Sheet1'' [[Some (Str ''''), Some (Str ''b'')], [Some (Str ''1'')]])
                  initial_grid)
     = [[Str ''1'', Str '''']]"
  by (simp add: grid_eval)

text \<open>
  C7.  The sheet has nothing in its first header cell, \<open>b\<close> in the second, and the row
  \<open>1\<close>, \<open>2\<close> below.  The header row that \<open>sheet_to_json\<close> delivers has a hole at the
  first position; \<open>headers.map\<close> and \<open>headers.forEach\<close> do not call their function there,
  so \<open>header || `Column ${index + 1}`\<close> is never evaluated for it.  The loaded grid has a
  hole where the descriptor of \<open>Column 1\<close> should be, only the column \<open>b\<close> has a name,
  and the cell \<open>1\<close> of the unnamed column is in no row.
\<close>

theorem absent_header_gets_no_column:
  "columns (loadExcelData unnamed_first_column initial_grid)
     = [Hole, Item \<lparr>key = Str ''b'', name = Str ''b'', editable = True, resizable = True\<rparr>]
   \<and> header_names (loadExcelData unnamed_first_column initial_grid) = [Str ''b'']
   \<and> cell_text (loadExcelData unnamed_first_column initial_grid) = [[Str ''2'']]
   \<and> dom (data (loadExcelData unnamed_first_column initial_grid) ! 0) = {''id'', ''b''}"
  by (auto simp: unnamed_first_column_def grid_eval split: if_splits)

section \<open>The grid: adding rows and columns\<close>

text \<open>
  C8 at a sheet whose only header is \<open>Column2\<close>.  \<open>addColumn\<close> names the new column
  after the number of columns, here \<open>Column2\<close> again: the grid then has two columns with
  the same key, and the cell \<open>x\<close> that was stored under it is replaced by the empty
  string.
\<close>

theorem addColumn_blanks_existing_cells:
  "cell_text column2_grid = [[Str ''x'']]
   \<and> newColumnKey column2_grid = ''Column2''
   \<and> columns (addColumn column2_grid)
       = [Item \<lparr>key = Str ''Column2'', name = Str ''Column2'', editable = True, resizable = True\<rparr>,
          Item \<lparr>key = Str ''Column2'', name = Str ''Column 2'', editable = True, resizable = True\<rparr>]
   \<and> map key (items (columns (addColumn column2_grid))) = [Str ''Column2'', Str ''Column2'']
   \<and> cell_text (addColumn column2_grid) = [[Str '''', Str '''']]"
  by (simp add: column2_grid_def grid_eval)


text \<open>
  What \<open>addRow\<close> and \<open>addColumn\<close> do otherwise: \<open>addRow\<close> appends a row that holds the empty
  string in every column whose key is not \<open>__proto__\<close> and leaves the rows before it
  alone; \<open>addColumn\<close>, when no column has the new key yet, appends the column, stores the
  empty string under it in every row and leaves the other cells alone.
\<close>

lemma fold_blank_row:
  "k \<noteq> ''__proto__'' \<Longrightarrow>
   fold (\<lambda>col r. assign r (to_key (key col)) (Str '''')) cs r k
     = (if k \<in> (\<lambda>c. to_key (key c)) ` set cs then Some (Str '''') else r k)"
  by (induction cs arbitrary: r) (auto simp: assign_def)

lemma addRow_appends:
  assumes "Undef \<notin> set (columns g)"
  shows "columns (addRow g) = columns g
         \<and> butlast (data (addRow g)) = data g
         \<and> (\<forall>c \<in> set (items (columns g)). to_key (key c) \<noteq> ''__proto__''
               \<longrightarrow> get_prop (last (data (addRow g))) (key c) = Str '''')"
  using assms by (simp add: addRow_def Let_def get_prop_def read_def fold_blank_row)

lemma items_spread [simp]: "items (spread xs) = items xs"
  unfolding spread_def by (induction xs) (auto split: slot.splits)

lemma addColumn_fresh_key:
  assumes "\<forall>c \<in> set (items (columns g)). to_key (key c) \<noteq> newColumnKey g"
  shows "items (columns (addColumn g)) = items (columns g) @ [newColumn g]
         \<and> length (data (addColumn g)) = length (data g)
         \<and> (\<forall>i < length (data g). \<forall>c \<in> set (items (columns g)).
               get_prop (data (addColumn g) ! i) (key c) = get_prop (data g ! i) (key c))
         \<and> (\<forall>i < length (data g).
               get_prop (data (addColumn g) ! i) (key (newColumn g)) = Str '''')"
proof -
  have "items (xs @ [Item c]) = items xs @ [c]" for xs :: "column slot list" and c
    by (induction xs rule: items.induct) simp_all
  with assms show ?thesis
    by (simp add: addColumn_def get_prop_def read_def newColumn_def)
qed

section \<open>The grid: saving and loading again\<close>


text \<open>
  A column named \<open>__proto__\<close> does not come back either: the assignment
  \<open>rowObj['__proto__'] = 'x'\<close> stores nothing, and what the grid reads under that key
  afterwards is the prototype of the row object.
\<close>

lemma reload_loses_cell_under_proto:
  "map_option cell_text
     (reload id \<lparr>data = [[''id'' \<mapsto> Num ''0'', ''k'' \<mapsto> Str ''x'']],
                 columns = [Item \<lparr>key = Str ''k'', name = Str ''__proto__'',
                                   editable = True, resizable = True\<rparr>],
                 worksheetName = ''Sheet1''\<rparr>)
   = Some [[Inherited ''__proto__'']]"
  by (simp add: grid_eval)

text \<open>Headers that are not empty are taken as they are, for the key and for the name.\<close>

lemma header_key_truthy: "truthy h \<Longrightarrow> header_key h j = h"
  by (simp add: header_key_def or_else_def)

lemma header_name_truthy: "truthy h \<Longrightarrow> header_name h j = h"
  by (simp add: header_name_def or_else_def)

lemma or_else_Str: "or_else (Str s) (Str '''') = Str s"
  by (simp add: or_else_def)

lemma wsData_items:
  "wsData \<lparr>data = rs, columns = map Item cs, worksheetName = n\<rparr>
     = Some (map Some (map name cs)
             # map (\<lambda>row. map Some (map (\<lambda>c. or_else (get_prop row (key c)) (Str '''')) cs)) rs)"
  by (auto simp: wsData_def comp_def)

lemma items_cols_dense:
  "items (cols (map Some hs))
     = map (\<lambda>(j, h). \<lparr>key = header_key h j, name = header_name h j,
                          editable = True, resizable = True\<rparr>) (enumerate 0 hs)"
proof -
  have "cols (map Some hs)
          = map Item (map (\<lambda>(j, h). \<lparr>key = header_key h j, name = header_name h j,
                                       editable = True, resizable = True\<rparr>) (enumerate 0 hs))"
    by (simp add: cols_dense split_def)
  then show ?thesis by (simp only: items_map_Item)
qed




section \<open>The scene and its background\<close>

text \<open>
  Removing, selecting and rotating keep a canvas in order, and on a canvas in order the
  background, being unselectable, is never among the active objects.
\<close>

lemma oid_inj:
  "distinct (map oid xs) \<Longrightarrow> a \<in> set xs \<Longrightarrow> b \<in> set xs \<Longrightarrow> oid a = oid b \<Longrightarrow> a = b"
  by (auto simp: distinct_map dest: inj_onD)

lemma fold_remove:
  "fold (\<lambda>obj. remove (oid obj)) os c
     = c\<lparr>objects := filter (\<lambda>obj. oid obj \<notin> oid ` set os) (objects c)\<rparr>"
proof (induction os arbitrary: c)
  case Nil
  then show ?case by simp
next
  case (Cons a os)
  have "fold (\<lambda>obj. remove (oid obj)) (a # os) c
          = fold (\<lambda>obj. remove (oid obj)) os (remove (oid a) c)"
    by simp
  also have "\<dots> = (remove (oid a) c)
        \<lparr>objects := filter (\<lambda>obj. oid obj \<notin> oid ` set os) (objects (remove (oid a) c))\<rparr>"
    by (rule Cons)
  also have "\<dots> = c\<lparr>objects := filter (\<lambda>obj. oid obj \<notin> oid ` set (a # os)) (objects c)\<rparr>"
    by (auto simp: remove_def intro: filter_cong)
  finally show ?case .
qed

lemma deleteSelected_objects:
  "objects (deleteSelected c) = filter (\<lambda>obj. oid obj \<notin> oid ` set (getActiveObjects c)) (objects c)"
proof (cases "getActiveObjects c = []")
  case True
  then show ?thesis by (simp add: deleteSelected_def)
next
  case False
  then show ?thesis
    by (simp add: deleteSelected_def fold_remove discardActiveObject_def Let_def)
qed

lemma deleteSelected_rest:
  "next_oid (deleteSelected c) = next_oid c"
  "set (active (deleteSelected c)) \<subseteq> set (active c)"
  by (simp_all add: deleteSelected_def fold_remove discardActiveObject_def Let_def)

lemma canvas_ok_add:
  assumes "canvas_ok c" and "selectable obj" and "oid obj = next_oid c"
  shows "canvas_ok (add obj (c\<lparr>next_oid := Suc (next_oid c)\<rparr>))"
    and "canvas_ok (add_active obj c)"
  using assms by (auto simp: canvas_ok_def add_def add_active_def setActiveObject_def)

lemma canvas_ok_pointer_select: "canvas_ok c \<Longrightarrow> canvas_ok (pointer_select wanted c)"
  unfolding canvas_ok_def pointer_select_def
  by (auto dest: oid_inj)

lemma canvas_ok_deleteSelected: "canvas_ok c \<Longrightarrow> canvas_ok (deleteSelected c)"
  using deleteSelected_rest [of c]
  by (auto simp: canvas_ok_def deleteSelected_objects distinct_map_filter)

lemma canvas_ok_rotateImage: "canvas_ok c \<Longrightarrow> canvas_ok (rotateImage c)"
proof -
  have same: "oid \<circ> (\<lambda>obj. if oid obj \<in> A then obj\<lparr>angle := fl (angle obj + 90)\<rparr> else obj) = oid"
    for A
    by (auto simp: fun_eq_iff)
  show "canvas_ok c \<Longrightarrow> canvas_ok (rotateImage c)"
    by (auto simp: canvas_ok_def rotateImage_def same split: if_splits)
qed

lemma canvas_ok_step: "canvas_ok c \<Longrightarrow> canvas_ok (scene_step e c)"
  by (cases e)
     (simp_all add: addText_def addRectangle_def addCircle_def brush_stroke_def shape_def
        canvas_ok_add canvas_ok_pointer_select select_all_def canvas_ok_deleteSelected
        canvas_ok_rotateImage)

lemma background_not_active:
  "canvas_ok c \<Longrightarrow> has_background c \<Longrightarrow> oid (hd (objects c)) \<notin> set (active c)"
  by (auto simp: canvas_ok_def has_background_def split: list.splits)

lemma background_step:
  assumes "canvas_ok c" and "has_background c"
  shows "has_background (scene_step e c) \<and> hd (objects (scene_step e c)) = hd (objects c)"
proof -
  from assms(2) obtain bg rest where objs: "objects c = bg # rest"
    and bg: "kind bg = BackgroundImage" "\<not> selectable bg"
    by (auto simp: has_background_def split: list.splits)
  have na: "oid bg \<notin> set (active c)"
    using background_not_active [OF assms] objs by simp
  have kept: "oid bg \<notin> oid ` set (getActiveObjects c)"
  proof
    assume "oid bg \<in> oid ` set (getActiveObjects c)"
    then obtain obj where "obj \<in> set (objects c)" "oid obj \<in> set (active c)" "oid obj = oid bg"
      by (auto simp: getActiveObjects_def)
    with na show False by simp
  qed
  show ?thesis
  proof (cases e)
    case DeleteSelected
    with objs bg kept show ?thesis
      by (simp add: has_background_def deleteSelected_objects)
  next
    case RotateImage
    with objs bg na show ?thesis
      by (simp add: has_background_def rotateImage_def)
  qed (use objs bg in \<open>simp_all add: has_background_def addText_def addRectangle_def
        addCircle_def brush_stroke_def add_active_def add_def setActiveObject_def
        pointer_select_def select_all_def\<close>)
qed

lemma scene_run_snoc: "scene_run (es @ [e]) c = scene_step e (scene_run es c)"
  by (simp add: scene_run_def)

lemma scene_run_ok:
  assumes "canvas_ok c" and "has_background c"
  shows "canvas_ok (scene_run es c) \<and> has_background (scene_run es c)
         \<and> hd (objects (scene_run es c)) = hd (objects c)"
proof (induction es rule: rev_induct)
  case Nil
  with assms show ?case by (simp add: scene_run_def)
next
  case (snoc e es)
  then show ?case
    using canvas_ok_step [of "scene_run es c" e] background_step [of "scene_run es c" e]
    by (simp add: scene_run_snoc)
qed

lemma canvas_ok_new: "canvas_ok new_canvas"
  by (simp add: canvas_ok_def new_canvas_def)

lemma canvas_ok_run: "canvas_ok c \<Longrightarrow> canvas_ok (scene_run es c)"
  by (induction es rule: rev_induct) (simp_all add: scene_run_def canvas_ok_step)

lemma image_loaded_background:
  assumes "canvas_ok c" and "\<not> disposed c"
  shows "canvas_ok (image_loaded w h c) \<and> has_background (image_loaded w h c)"
proof -
  have old: "filter (\<lambda>obj. oid obj = next_oid c) (objects c) = []"
    "filter (\<lambda>obj. oid obj \<noteq> next_oid c) (objects c) = objects c"
    using assms(1) by (auto simp: canvas_ok_def filter_empty_conv filter_id_conv)
  show ?thesis
    using assms old
    by (auto simp: image_loaded_def sendToBack_def add_def Let_def canvas_ok_def
        has_background_def)
qed

lemma image_loaded_disposed: "image_loaded w h (dispose c) = dispose c"
  by (simp add: image_loaded_def dispose_def)

text \<open>
  C9.  On a canvas in order that has its background, whatever the user does next (adding
  shapes, brush strokes, selecting by pointer, selecting everything, deleting the
  selection, rotating), the background stays the object at the back, untouched; in
  particular after \<open>deleteSelected\<close>, also when everything was selected before.  Every
  canvas is in this state once its image has arrived (\<open>image_loaded_background\<close>).
\<close>

theorem deleteSelected_keeps_background:
  assumes "canvas_ok c" and "has_background c"
  shows "has_background (scene_run es c)
         \<and> hd (objects (scene_run es c)) = hd (objects c)
         \<and> hd (objects (deleteSelected (scene_run es c))) = hd (objects c)
         \<and> hd (objects (deleteSelected (select_all (scene_run es c)))) = hd (objects c)
         \<and> has_background (deleteSelected (select_all (scene_run es c)))"
  using scene_run_ok [OF assms, of es] scene_run_ok [OF assms, of "es @ [DeleteSelected]"]
    scene_run_ok [OF assms, of "es @ [SelectAll, DeleteSelected]"]
  by (simp add: scene_run_def)

theorem deleteSelected_keeps_background_witness:
  "canvas_ok loaded_canvas \<and> has_background loaded_canvas
   \<and> kind (hd (objects (deleteSelected (select_all (scene_run select_all_and_delete loaded_canvas)))))
       = BackgroundImage
   \<and> length (objects (scene_run select_all_and_delete loaded_canvas)) = 1"
proof -
  have ok: "canvas_ok (scene_run [AddRectangle ''#ff0000''] new_canvas)"
    by (rule canvas_ok_run [OF canvas_ok_new])
  have nd: "\<not> disposed (scene_run [AddRectangle ''#ff0000''] new_canvas)"
    by (simp add: scene_run_def addRectangle_def add_active_def add_def setActiveObject_def
        new_canvas_def)
  from image_loaded_background [OF ok nd, of 1600 600]
  have c: "canvas_ok loaded_canvas" and b: "has_background loaded_canvas"
    by (simp_all add: loaded_canvas_def)
  have k: "kind (hd (objects loaded_canvas)) = BackgroundImage"
    using b by (auto simp: has_background_def split: list.splits)
  have n: "length (objects (scene_run select_all_and_delete loaded_canvas)) = 1"
    by (simp add: select_all_and_delete_def loaded_canvas_def scene_run_def image_loaded_def
        sendToBack_def add_def addRectangle_def addText_def add_active_def setActiveObject_def
        shape_def new_canvas_def select_all_def pointer_select_def deleteSelected_def
        getActiveObjects_def remove_def discardActiveObject_def Let_def)
  from deleteSelected_keeps_background [OF c b, of select_all_and_delete] c b k n
  show ?thesis by simp
qed


section \<open>Loads that settle late\<close>

text \<open>
  C5 at two spreadsheets.  The editor is mounted on \<open>A\<close>; the selection changes to \<open>B\<close>
  and the load of \<open>B\<close> settles: the grid shows \<open>B\<close>.  Then the load that was started for
  \<open>A\<close> settles: the editor is still on \<open>B\<close>, and its grid, its header and its sheet name
  are those of \<open>A\<close>.  Nothing in \<open>loadExcelData\<close> compares the file it was started for
  with the current one.  The callback of the ImageEditor does look whether its canvas is
  still there (\<open>image_loaded_disposed\<close>).
\<close>

theorem late_load_overwrites_current_grid:
  "ed_file (excel_run switch_then_b (mount_excel sheet_a)) = sheet_b
   \<and> header_names (ed_grid (excel_run switch_then_b (mount_excel sheet_a))) = [Str ''b'']
   \<and> cell_text (ed_grid (excel_run switch_then_b (mount_excel sheet_a))) = [[Str ''2'']]
   \<and> ed_file (excel_run switch_then_b_then_a (mount_excel sheet_a)) = sheet_b
   \<and> header_names (ed_grid (excel_run switch_then_b_then_a (mount_excel sheet_a))) = [Str ''a'']
   \<and> cell_text (ed_grid (excel_run switch_then_b_then_a (mount_excel sheet_a))) = [[Str ''1'']]
   \<and> worksheetName (ed_grid (excel_run switch_then_b_then_a (mount_excel sheet_a))) = ''A''"
  by (simp add: switch_then_b_def switch_then_b_then_a_def excel_run_def mount_excel_def
      load_a_def load_b_def grid_eval)

text \<open>A load of the PDFEditor that settles late puts its document in place and goes to page 1.\<close>

lemma late_pdf_load_resets_page:
  "currentPage (pv_state (pdf_step (PdfLoadSettled f (Some doc)) v)) = 1
   \<and> pdfDoc (pv_state (pdf_step (PdfLoadSettled f (Some doc)) v)) = Some doc
   \<and> pv_file (pdf_step (PdfLoadSettled f (Some doc)) v) = pv_file v"
  by (simp add: loadPDF_def)


section \<open>The store of uploaded files\<close>

lemmas store_eval =
  store_run_def handleFileUpload_def handleFileSelect_def handleFileDelete_def
  handleFileUpdate_def handleCloseViewer_def createObjectURL_def revokeObjectURL_def
  initial_app_def read_content_def upload_ids_def
  nat_to_string.simps digit_char_def str_eval

text \<open>
  C1.  Ids are made of \<open>Date.now()\<close> and the position in the batch, and nothing looks
  whether an id is in use.  Two uploads made while the clock gives the same value produce
  two records with the id \<open>1000-0\<close>.  The first save gives both records the same new
  URL, so two live records share one handle; the second save revokes that URL once for
  each of them, so a handle is released twice.
\<close>

theorem same_clock_releases_twice:
  "map file_id (uploadedFiles (store_run (butlast same_clock_ops) initial_app))
     = [''1000-0'', ''1000-0'']
   \<and> map url (uploadedFiles (store_run (butlast same_clock_ops) initial_app)) = [2, 2]
   \<and> map file_id (uploadedFiles (store_run same_clock_ops initial_app)) = [''1000-0'', ''1000-0'']
   \<and> revoked (reg (store_run same_clock_ops initial_app)) = [0, 1, 2, 2]
   \<and> \<not> distinct (revoked (reg (store_run same_clock_ops initial_app)))"
  by (simp add: same_clock_ops_def first_pdf_def second_pdf_def store_eval revoked_def)

text \<open>
  A save that settles late.  \<open>a.pdf\<close> is selected and its save is started; the user
  selects \<open>b.pdf\<close>; then the save settles.  The callback belongs to the render in which
  \<open>a.pdf\<close> was selected, so its test \<open>selectedFile?.id === id\<close> succeeds and the updater
  gives the new URL and size of \<open>a.pdf\<close> to the selection, which is \<open>b.pdf\<close> by now.
\<close>

lemma late_save_changes_other_selection:
  "map_option file_id (selectedFile two_files) = Some ''1000-0''
   \<and> map (\<lambda>f. (file_id f, url f)) (uploadedFiles (store_run late_save two_files))
       = [(''1000-0'', 2), (''1000-1'', 1)]
   \<and> map_option (\<lambda>f. (file_id f, url f)) (selectedFile (store_run late_save two_files))
       = Some (''1000-1'', 2)
   \<and> \<not> selection_ok (store_run late_save two_files)"
  by (simp add: late_save_def two_files_def first_pdf_def second_pdf_def store_eval
      selection_ok_def)

text \<open>What the calls to the registry do to its log.\<close>

lemma revoke_simps [simp]:
  "created (revokeObjectURL u r) = created r"
  "revoked (revokeObjectURL u r) = revoked r @ [u]"
  "next_url (revokeObjectURL u r) = next_url r"
  "url_log (revokeObjectURL u r) = url_log r @ [Revoked u]"
  by (simp_all add: revokeObjectURL_def created_def revoked_def)

lemma create_simps [simp]:
  "fst (createObjectURL b r) = next_url r"
  "created (snd (createObjectURL b r)) = created r @ [next_url r]"
  "revoked (snd (createObjectURL b r)) = revoked r"
  "next_url (snd (createObjectURL b r)) = Suc (next_url r)"
  "url_log (snd (createObjectURL b r)) = url_log r @ [Created (next_url r) b]"
  by (simp_all add: createObjectURL_def created_def revoked_def)

lemma newFiles_facts:
  "map url (fst (newFiles i fs r)) = [next_url r ..< next_url r + length fs]
   \<and> created (snd (newFiles i fs r)) = created r @ [next_url r ..< next_url r + length fs]
   \<and> revoked (snd (newFiles i fs r)) = revoked r
   \<and> next_url (snd (newFiles i fs r)) = next_url r + length fs"
proof (induction fs arbitrary: i r)
  case Nil
  then show ?case by simp
next
  case (Cons f fs)
  show ?case
    using Cons [of "Suc i" "snd (createObjectURL (up_blob f) r)"]
    by (simp add: split_beta Let_def upt_conv_Cons del: upt_Suc)
qed

lemma fold_revoke_facts:
  "created (fold (\<lambda>f r. if file_id f = i then revokeObjectURL (url f) r else r) fs r) = created r"
  "next_url (fold (\<lambda>f r. if file_id f = i then revokeObjectURL (url f) r else r) fs r) = next_url r"
  "revoked (fold (\<lambda>f r. if file_id f = i then revokeObjectURL (url f) r else r) fs r)
     = revoked r @ map url (filter (\<lambda>f. file_id f = i) fs)"
  "url_log (fold (\<lambda>f r. if file_id f = i then revokeObjectURL (url f) r else r) fs r)
     = url_log r @ map Revoked (map url (filter (\<lambda>f. file_id f = i) fs))"
  by (induction fs arbitrary: r) simp_all


text \<open>
  As long as no upload brings an id that is already in use, the handles stay in order
  under every operation, a save that settles late included.
\<close>

lemma handles_ok_upload:
  assumes ok: "handles_ok a" and fresh: "new_ids_ok (Upload fs) a"
  shows "handles_ok (handleFileUpload fs a)"
proof -
  let ?n = "next_url (reg a)"
  let ?new = "fst (newFiles 0 fs (reg a))"
  let ?r = "snd (newFiles 0 fs (reg a))"
  note nf = newFiles_facts [of 0 fs "reg a"]
  have st: "uploadedFiles (handleFileUpload fs a) = uploadedFiles a @ ?new"
    "selectedFile (handleFileUpload fs a) = selectedFile a"
    "reg (handleFileUpload fs a) = ?r"
    by (simp_all add: handleFileUpload_def split_beta)
  have old_urls: "\<forall>f \<in> set (uploadedFiles a). url f < ?n"
    using ok by (auto simp: handles_ok_def live_def)
  have ids: "distinct (map file_id (uploadedFiles a @ ?new))"
    using ok fresh by (auto simp: handles_ok_def upload_ids_def) (metis imageI)
  have urls: "distinct (map url (uploadedFiles a @ ?new))"
    using ok nf old_urls by (fastforce simp: handles_ok_def)
  have alive: "live ?r (url f)" if "f \<in> set (uploadedFiles a @ ?new)" for f
  proof (cases "f \<in> set (uploadedFiles a)")
    case True
    with ok nf show ?thesis by (auto simp: handles_ok_def live_def)
  next
    case False
    with that have "url f \<in> set (map url ?new)" by auto
    then have "url f \<in> {?n ..< ?n + length fs}" using nf by simp
    moreover have "\<forall>u \<in> set (revoked (reg a)). u < ?n"
      using ok by (auto simp: handles_ok_def)
    ultimately show ?thesis using nf by (fastforce simp: live_def)
  qed
  have log: "distinct (revoked ?r)" "\<forall>u \<in> set (revoked ?r). u \<in> set (created ?r)"
    "\<forall>u \<in> set (created ?r). u < next_url ?r"
    using ok nf by (auto simp: handles_ok_def)
  show ?thesis
    unfolding handles_ok_def st using ids urls alive log by blast
qed

lemma handles_ok_select: "handles_ok a \<Longrightarrow> handles_ok (handleFileSelect f a)"
  by (simp add: handles_ok_def handleFileSelect_def)

lemma handles_ok_close: "handles_ok a \<Longrightarrow> handles_ok (handleCloseViewer a)"
  by (simp add: handles_ok_def handleCloseViewer_def)

lemma url_inj:
  "distinct (map url fs) \<Longrightarrow> f \<in> set fs \<Longrightarrow> g \<in> set fs \<Longrightarrow> url f = url g \<Longrightarrow> f = g"
  by (auto simp: distinct_map dest: inj_onD)

lemma handles_ok_delete:
  assumes ok: "handles_ok a"
  shows "handles_ok (handleFileDelete i a)"
proof -
  let ?fs = "uploadedFiles a"
  let ?keep = "filter (\<lambda>f. file_id f \<noteq> i) ?fs"
  have st: "uploadedFiles (handleFileDelete i a) = ?keep"
    by (simp add: handleFileDelete_def)
  have lists: "distinct (map file_id ?keep)" "distinct (map url ?keep)"
    using ok by (simp_all add: handles_ok_def distinct_map_filter)
  show ?thesis
  proof (cases "find (\<lambda>f. file_id f = i) ?fs")
    case None
    then have "reg (handleFileDelete i a) = reg a" by (simp add: handleFileDelete_def)
    with ok lists show ?thesis
      unfolding handles_ok_def st by auto
  next
    case (Some d)
    then have d: "d \<in> set ?fs" "file_id d = i"
      by (auto simp: find_Some_iff)
    have r: "reg (handleFileDelete i a) = revokeObjectURL (url d) (reg a)"
      using Some by (simp add: handleFileDelete_def)
    have dl: "live (reg a) (url d)" using ok d by (simp add: handles_ok_def)
    have alive: "live (revokeObjectURL (url d) (reg a)) (url f)" if "f \<in> set ?keep" for f
    proof -
      from that have f: "f \<in> set ?fs" "file_id f \<noteq> i" by auto
      with d ok have "url f \<noteq> url d" by (auto simp: handles_ok_def dest: url_inj)
      with ok f show ?thesis by (auto simp: handles_ok_def live_def)
    qed
    have log: "distinct (revoked (revokeObjectURL (url d) (reg a)))"
      "\<forall>u \<in> set (revoked (revokeObjectURL (url d) (reg a))).
          u \<in> set (created (revokeObjectURL (url d) (reg a)))"
      "\<forall>u \<in> set (created (revokeObjectURL (url d) (reg a))).
          u < next_url (revokeObjectURL (url d) (reg a))"
      using ok dl by (auto simp: handles_ok_def live_def)
    show ?thesis
      unfolding handles_ok_def st r using lists alive log by blast
  qed
qed


lemma id_inj:
  "distinct (map file_id fs) \<Longrightarrow> f \<in> set fs \<Longrightarrow> g \<in> set fs \<Longrightarrow> file_id f = file_id g \<Longrightarrow> f = g"
  by (auto simp: distinct_map dest: inj_onD)

lemma update_state:
  "uploadedFiles (handleFileUpdate rendered i b a)
     = map (\<lambda>f. if file_id f = i then f\<lparr>url := next_url (reg a), file_size := length b\<rparr> else f)
           (uploadedFiles a)"
  "selectedFile (handleFileUpdate rendered i b a)
     = (if map_option file_id rendered = Some i
        then map_option (\<lambda>prev. prev\<lparr>url := next_url (reg a), file_size := length b\<rparr>)
               (selectedFile a)
        else selectedFile a)"
  "created (reg (handleFileUpdate rendered i b a)) = created (reg a) @ [next_url (reg a)]"
  "revoked (reg (handleFileUpdate rendered i b a))
     = revoked (reg a) @ map url (filter (\<lambda>f. file_id f = i) (uploadedFiles a))"
  "next_url (reg (handleFileUpdate rendered i b a)) = Suc (next_url (reg a))"
  "url_log (reg (handleFileUpdate rendered i b a))
     = url_log (reg a) @ Created (next_url (reg a)) b
         # map Revoked (map url (filter (\<lambda>f. file_id f = i) (uploadedFiles a)))"
  by (cases rendered;
      simp add: handleFileUpdate_def split_beta Let_def fold_revoke_facts)+

lemma handles_ok_update:
  assumes ok: "handles_ok a"
  shows "handles_ok (handleFileUpdate rendered i b a)"
proof -
  let ?n = "next_url (reg a)"
  let ?fs = "uploadedFiles a"
  let ?up = "\<lambda>f. if file_id f = i then f\<lparr>url := ?n, file_size := length b\<rparr> else f"
  let ?a = "handleFileUpdate rendered i b a"
  note st = update_state [of rendered i b a]
  have ids: "distinct (map file_id ?fs)" and urls: "distinct (map url ?fs)"
    and alive: "\<forall>f \<in> set ?fs. live (reg a) (url f)"
    and rev: "distinct (revoked (reg a))" "\<forall>u \<in> set (revoked (reg a)). u \<in> set (created (reg a))"
    and below: "\<forall>u \<in> set (created (reg a)). u < ?n"
    using ok by (simp_all add: handles_ok_def)
  have old: "\<forall>f \<in> set ?fs. url f < ?n"
    using alive below by (auto simp: live_def)
  have c1: "distinct (map file_id (map ?up ?fs))"
  proof -
    have same: "file_id \<circ> ?up = file_id" by (auto simp: fun_eq_iff)
    show ?thesis using ids by (simp add: same)
  qed
  have c2: "distinct (map url (map ?up ?fs))"
  proof -
    have "inj_on (url \<circ> ?up) (set ?fs)"
    proof (rule inj_onI)
      fix f g assume f: "f \<in> set ?fs" and g: "g \<in> set ?fs" and e: "(url \<circ> ?up) f = (url \<circ> ?up) g"
      show "f = g"
      proof (cases "file_id f = i")
        case True
        with e f g old have "file_id g = i" by (auto split: if_splits)
        with True ids f g show ?thesis by (auto dest: id_inj)
      next
        case False
        with e f g old have "file_id g \<noteq> i \<and> url f = url g" by (auto split: if_splits)
        with urls f g show ?thesis by (auto dest: url_inj)
      qed
    qed
    moreover have "distinct ?fs" using urls by (simp add: distinct_map)
    ultimately show ?thesis by (simp add: distinct_map)
  qed
  have c3: "\<forall>f \<in> set (map ?up ?fs). live (reg ?a) (url f)"
  proof
    fix f' assume "f' \<in> set (map ?up ?fs)"
    then obtain f where f: "f \<in> set ?fs" and f': "f' = ?up f" by auto
    show "live (reg ?a) (url f')"
    proof (cases "file_id f = i")
      case True
      then have "url f' = ?n" using f' by simp
      moreover have "?n \<notin> set (revoked (reg a))" using rev(2) below by auto
      moreover have "?n \<notin> url ` set (filter (\<lambda>f. file_id f = i) ?fs)" using old by auto
      ultimately show ?thesis by (simp add: live_def st)
    next
      case False
      then have u: "url f' = url f" using f' by simp
      have "url f \<notin> url ` set (filter (\<lambda>f. file_id f = i) ?fs)"
      proof
        assume "url f \<in> url ` set (filter (\<lambda>f. file_id f = i) ?fs)"
        then obtain h where "h \<in> set ?fs" "file_id h = i" "url h = url f" by auto
        with urls f have "h = f" by (auto dest: url_inj)
        with \<open>file_id h = i\<close> False show False by simp
      qed
      with alive f u show ?thesis by (auto simp: live_def st)
    qed
  qed
  have c4: "distinct (revoked (reg ?a))"
    using rev(1) urls alive by (auto simp: st distinct_map_filter live_def)
  have c5: "\<forall>u \<in> set (revoked (reg ?a)). u \<in> set (created (reg ?a))"
    using rev(2) alive by (auto simp: st live_def)
  have c6: "\<forall>u \<in> set (created (reg ?a)). u < next_url (reg ?a)"
    using below by (auto simp: st)
  show ?thesis
    unfolding handles_ok_def st(1) using c1 c2 c3 c4 c5 c6 by blast
qed

lemma handles_ok_step: "handles_ok a \<Longrightarrow> new_ids_ok op a \<Longrightarrow> handles_ok (store_step op a)"
  by (cases op)
     (simp_all add: handles_ok_upload handles_ok_select handles_ok_delete handles_ok_update
        handles_ok_close del: new_ids_ok.simps)

lemma handles_ok_run: "handles_ok a \<Longrightarrow> ids_fresh ops a \<Longrightarrow> handles_ok (store_run ops a)"
proof (induction ops arbitrary: a)
  case Nil
  then show ?case by (simp add: store_run_def)
next
  case (Cons op ops)
  then show ?case
    using handles_ok_step [of a op] by (simp add: store_run_def)
qed

lemma ids_fresh_take: "ids_fresh ops a \<Longrightarrow> ids_fresh (take n ops) a"
proof (induction ops arbitrary: a n)
  case Nil
  then show ?case by simp
next
  case (Cons op ops)
  then show ?case by (cases n) simp_all
qed

lemma handles_ok_initial: "handles_ok initial_app"
  by (simp add: handles_ok_def initial_app_def revoked_def created_def)

text \<open>
  A save asks for the new URL first and revokes afterwards, and only URLs of records with
  the saved id.
\<close>

lemma update_creates_before_revoking:
  "update_calls i b a
     = Created (next_url (reg a)) b
       # map Revoked (map url (filter (\<lambda>f. file_id f = i) (uploadedFiles a)))"
  by (simp add: update_calls_def update_state)

text \<open>
  The selection stays a copy of a record of the list under the operations that settle in
  the render that started them.
\<close>

lemma selection_ok_step:
  assumes "selection_ok a" and "\<forall>rendered i b. op \<noteq> LateUpdate rendered i b"
  shows "selection_ok (store_step op a)"
proof (cases op)
  case (Upload fs)
  with assms show ?thesis
    by (auto simp: selection_ok_def handleFileUpload_def split_beta split: option.splits)
next
  case (Select n)
  with assms show ?thesis
    by (simp add: selection_ok_def handleFileSelect_def)
next
  case (Delete i)
  with assms show ?thesis
    by (auto simp: selection_ok_def handleFileDelete_def split: option.splits)
next
  case (Update i b)
  with assms show ?thesis
    by (auto simp: selection_ok_def update_state split: option.splits)
next
  case Close
  then show ?thesis
    by (simp add: selection_ok_def handleCloseViewer_def)
next
  case (LateUpdate rendered i b)
  with assms show ?thesis by simp
qed

lemma selection_ok_run:
  "selection_ok a \<Longrightarrow> \<forall>op \<in> set ops. \<forall>rendered i b. op \<noteq> LateUpdate rendered i b
   \<Longrightarrow> selection_ok (store_run ops a)"
proof (induction ops arbitrary: a)
  case Nil
  then show ?case by (simp add: store_run_def)
next
  case (Cons op ops)
  then show ?case
    using selection_ok_step [of a op] by (simp add: store_run_def)
qed

text \<open>The usual course: two uploads in one batch, a selection, a save and a deletion.\<close>

lemma usual_ops_in_order:
  "ids_fresh usual_ops initial_app
   \<and> handles_ok (store_run usual_ops initial_app)
   \<and> selection_ok (store_run usual_ops initial_app)
   \<and> map url (uploadedFiles (store_run usual_ops initial_app)) = [2]
   \<and> revoked (reg (store_run usual_ops initial_app)) = [0, 1]
   \<and> update_calls ''1000-0'' [9] (store_run usual_ops initial_app) = [Created 3 [9], Revoked 2]"
proof -
  have f: "ids_fresh usual_ops initial_app"
    by (simp add: usual_ops_def first_pdf_def second_pdf_def store_eval)
  have r: "store_run usual_ops initial_app =
     \<lparr>uploadedFiles =
        [\<lparr>file_id = ''1000-0'', file_name = ''a.pdf'', file_type = ''application/pdf'',
          file_size = 1, url = 2, content = []\<rparr>],
      selectedFile =
        Some \<lparr>file_id = ''1000-0'', file_name = ''a.pdf'', file_type = ''application/pdf'',
               file_size = 1, url = 2, content = []\<rparr>,
      reg = \<lparr>next_url = 3,
              url_log = [Created 0 [1, 2], Created 1 [3], Created 2 [7], Revoked 0, Revoked 1]\<rparr>\<rparr>"
    by (simp add: usual_ops_def first_pdf_def second_pdf_def store_eval)
  have h: "handles_ok (store_run usual_ops initial_app)"
    using handles_ok_initial f by (rule handles_ok_run)
  show ?thesis
    using f h by (simp add: r update_creates_before_revoking selection_ok_def revoked_def)
qed

end
